theory Spec2Isabelle
  imports Complex_Main
begin

section \<open>Numbers, vectors and rotations\<close>

text \<open>
  The client of \<^verbatim>\<open>xarm_planning_client.py\<close> computes with Python floats and numpy
  arrays. For the geometry of the orbit, floats are modelled as the real numbers they
  approximate. The single division of the orbit code, \<^verbatim>\<open>v / np.linalg.norm(v)\<close>, is
  written out: on the zero vector numpy computes 0/0 in every component and answers the
  all-NaN array (with a RuntimeWarning and no exception). \<open>NaN\<close> below stands for an array
  that holds a NaN or an infinity. The rounding of that division in double precision is
  modelled separately, in the section on binary64 arithmetic.
\<close>

type_synonym vec3 = "real \<times> real \<times> real"

text \<open>Quaternions are scalar-last, \<open>(x, y, z, w)\<close>, as scipy's \<^verbatim>\<open>as_quat\<close> gives them.\<close>

type_synonym quat = "real \<times> real \<times> real \<times> real"

datatype 'a fl = Finite 'a | NaN

fun vsub :: "vec3 \<Rightarrow> vec3 \<Rightarrow> vec3" where
  "vsub (a, b, c) (x, y, z) = (a - x, b - y, c - z)"

fun vdiv :: "vec3 \<Rightarrow> real \<Rightarrow> vec3" where
  "vdiv (a, b, c) n = (a / n, b / n, c / n)"

fun vscale :: "real \<Rightarrow> vec3 \<Rightarrow> vec3" where
  "vscale k (a, b, c) = (k * a, k * b, k * c)"

text \<open>\<^verbatim>\<open>np.linalg.norm\<close> of a 3-vector.\<close>

fun norm3 :: "vec3 \<Rightarrow> real" where
  "norm3 (a, b, c) = sqrt (a\<^sup>2 + b\<^sup>2 + c\<^sup>2)"

text \<open>
  \<^verbatim>\<open>math.atan2(y, x)\<close>: the angle of the point \<open>(x, y)\<close> in \<open>(-\<pi>, \<pi>]\<close>, and \<open>0\<close> at the
  origin (the difference of two equal floats is \<open>+0.0\<close>).
\<close>

definition atan2 :: "real \<Rightarrow> real \<Rightarrow> real" where
  "atan2 y x =
     (if 0 < x then arctan (y / x)
      else if x < 0 then (if 0 \<le> y then arctan (y / x) + pi else arctan (y / x) - pi)
      else if 0 < y then pi / 2
      else if y < 0 then - (pi / 2)
      else 0)"

text \<open>
  The exceptions that can leave the methods modelled here: a failed transform lookup
  (tf2 raises after the two-second timeout), an exception raised inside
  \<^verbatim>\<open>Rotation.align_vectors\<close>, the \<^verbatim>\<open>ValueError\<close> that scipy raises when a rotation with a
  NaN quaternion is multiplied, and Python's \<^verbatim>\<open>AttributeError\<close> for a session attribute
  that is read before \<^verbatim>\<open>surround_and_lock\<close> has assigned it.
\<close>

datatype error = TransformError | AlignError | ValueError | AttributeError

text \<open>
  A scipy \<^verbatim>\<open>Rotation\<close> holds a unit quaternion. \<^verbatim>\<open>Rotation.from_euler('z', t)\<close> is the
  rotation by \<open>t\<close> about the z axis, \<^verbatim>\<open>p * q\<close> is the quaternion product (\<open>q\<close> applied
  first), and \<^verbatim>\<open>apply\<close> rotates a vector by the matrix of the quaternion. The product
  builds a new \<^verbatim>\<open>Rotation\<close> from the multiplied quaternions, and that constructor raises
  \<^verbatim>\<open>ValueError\<close> when the quaternion is NaN: a NaN rotation cannot be multiplied.
\<close>

type_synonym rot = "quat fl"

definition from_euler_z :: "real \<Rightarrow> rot" where
  "from_euler_z t = Finite (0, 0, sin (t / 2), cos (t / 2))"

fun quat_mul :: "quat \<Rightarrow> quat \<Rightarrow> quat" where
  "quat_mul (px, py, pz, pw) (qx, qy, qz, qw) =
     (pw * qx + px * qw + py * qz - pz * qy,
      pw * qy + py * qw + pz * qx - px * qz,
      pw * qz + pz * qw + px * qy - py * qx,
      pw * qw - px * qx - py * qy - pz * qz)"

fun rot_mul :: "rot \<Rightarrow> rot \<Rightarrow> error + rot" where
  "rot_mul (Finite p) (Finite q) = Inr (Finite (quat_mul p q))"
| "rot_mul _ _ = Inl ValueError"

fun quat_norm :: "quat \<Rightarrow> real" where
  "quat_norm (x, y, z, w) = sqrt (x\<^sup>2 + y\<^sup>2 + z\<^sup>2 + w\<^sup>2)"

fun quat_apply :: "quat \<Rightarrow> vec3 \<Rightarrow> vec3" where
  "quat_apply (x, y, z, w) (a, b, c) =
     ((x\<^sup>2 - y\<^sup>2 - z\<^sup>2 + w\<^sup>2) * a + 2 * (x * y - z * w) * b + 2 * (x * z + y * w) * c,
      2 * (x * y + z * w) * a + (- x\<^sup>2 + y\<^sup>2 - z\<^sup>2 + w\<^sup>2) * b + 2 * (y * z - x * w) * c,
      2 * (x * z - y * w) * a + 2 * (y * z + x * w) * b + (- x\<^sup>2 - y\<^sup>2 + z\<^sup>2 + w\<^sup>2) * c)"

text \<open>
  Two rotations are the same when their unit quaternions are equal or opposite; a NaN
  rotation is the same as none.
\<close>

fun quat_neg :: "quat \<Rightarrow> quat" where
  "quat_neg (x, y, z, w) = (- x, - y, - z, - w)"

fun same_rotation :: "rot \<Rightarrow> rot \<Rightarrow> bool" where
  "same_rotation (Finite p) (Finite q) = (p = q \<or> p = quat_neg q)"
| "same_rotation _ _ = False"

section \<open>Messages, errors and the client object\<close>

record pose =
  position :: vec3
  orientation :: rot

record transform =
  tf_translation :: vec3
  tf_rotation :: quat

text \<open>One entry of a \<^verbatim>\<open>TFMessage\<close>: the parent frame (\<^verbatim>\<open>header.frame_id\<close>) and the child.\<close>

record transform_stamped =
  frame_id :: string
  child_frame_id :: string

type_synonym tf_message = "transform_stamped list"

text \<open>
  The fields of \<^verbatim>\<open>XArmPlanningClient\<close> that the modelled methods read or write.
  \<open>base_link_name\<close> is \<^verbatim>\<open>self.moveit2.base_link_name\<close>. \<open>tf_buffer\<close> is what
  \<^verbatim>\<open>lookup_transform(target_frame, source_frame, Time(), 2 s)\<close> answers for a target
  and a source frame. The three session attributes do not exist until they are assigned
  (\<open>None\<close>). \<open>tf_subscriptions\<close> and \<open>tf_destroyed\<close> count the calls of
  \<^verbatim>\<open>create_subscription\<close> and \<^verbatim>\<open>destroy_subscription\<close>, \<open>warnings\<close> is the logger's output.
\<close>

record client =
  camera_link :: string
  base_link_name :: string
  tf_buffer :: "string \<Rightarrow> string \<Rightarrow> error + transform"
  circular_path_initial_position :: "vec3 option"
  circular_path_initial_orientation :: "rot option"
  circular_path_angle_offset :: "real option"
  tf_subscriptions :: nat
  tf_destroyed :: nat
  warnings :: "string list"

text \<open>
  \<^verbatim>\<open>Rotation.align_vectors([a], [b])\<close> belongs to scipy, not to this repository; the
  client is modelled over any such routine, a function from the (possibly NaN) vector
  \<open>a\<close> and the vector \<open>b\<close> to a rotation or an exception.
\<close>

type_synonym aligner = "vec3 fl \<Rightarrow> vec3 \<Rightarrow> error + rot"

section \<open>Motion facade: the current pose\<close>

definition get_current_pose :: "client \<Rightarrow> string \<Rightarrow> error + pose" where
  "get_current_pose c frame =
     (case tf_buffer c (base_link_name c) frame of
        Inl e \<Rightarrow> Inl e
      | Inr current_transform \<Rightarrow>
          Inr \<lparr>position = tf_translation current_transform,
               orientation = Finite (tf_rotation current_transform)\<rparr>)"

section \<open>Orbit trajectory generator\<close>

definition normalize_v :: "vec3 \<Rightarrow> vec3 fl" where
  "normalize_v v = (if norm3 v = 0 then NaN else Finite (vdiv v (norm3 v)))"

definition ref_forward :: vec3 where
  "ref_forward = (0, 0, 1)"

text \<open>\<open>initial_y\<close> is a parameter of the method (default \<open>(0, 1, 0)\<close>) that its body never reads.\<close>

definition gaze_at :: "aligner \<Rightarrow> vec3 \<Rightarrow> vec3 \<Rightarrow> vec3 \<Rightarrow> error + rot" where
  "gaze_at av center_point ideal_camera_position initial_y =
     (let direction = normalize_v (vsub center_point ideal_camera_position)
      in av direction ref_forward)"

definition compute_initial_angle :: "client \<Rightarrow> vec3 \<Rightarrow> error + client" where
  "compute_initial_angle c center =
     (case circular_path_initial_position c of
        None \<Rightarrow> Inl AttributeError
      | Some (px, py, pz) \<Rightarrow>
          (case center of (cx, cy, cz) \<Rightarrow>
             let delta_x = px - cx; delta_y = py - cy
             in Inr (c\<lparr>circular_path_angle_offset := Some (atan2 delta_y delta_x)\<rparr>)))"

text \<open>The angle of the roll correction, lines 251 to 254.\<close>

definition roll_correction :: "real \<Rightarrow> real" where
  "roll_correction angle =
     (if angle \<le> pi then - (pi / 2) * cos angle else (pi / 2) * cos angle + pi)"

definition compute_pose_on_circle :: "aligner \<Rightarrow> client \<Rightarrow> vec3 \<Rightarrow> real \<Rightarrow> error + pose" where
  "compute_pose_on_circle av c center angle =
     (case circular_path_angle_offset c of
        None \<Rightarrow> Inl AttributeError
      | Some angle_offset \<Rightarrow>
     (case circular_path_initial_position c of
        None \<Rightarrow> Inl AttributeError
      | Some (px, py, pz) \<Rightarrow>
     (case center of (cx, cy, cz) \<Rightarrow>
        let total_angle = angle_offset + angle;
            radius = norm3 (vsub (px, py, pz) center);
            x = cx + radius * cos total_angle;
            y = cy + radius * sin total_angle;
            z = pz;
            camera_position = (x, y, z)
        in (case gaze_at av center camera_position (0, 1, 0) of
              Inl e \<Rightarrow> Inl e
            | Inr rotation \<Rightarrow>
                let offset = (if angle \<le> pi
                              then from_euler_z (- (pi / 2) * cos angle)
                              else from_euler_z ((pi / 2) * cos angle + pi))
                in (case rot_mul rotation offset of
                      Inl e \<Rightarrow> Inl e
                    | Inr product \<Rightarrow>
                        Inr \<lparr>position = (x, y, z), orientation = product\<rparr>)))))"

text \<open>
  The loop \<^verbatim>\<open>for i in range(1, num_waypoints)\<close> over the list of its indices; an exception
  in the body leaves the loop and the method, and the poses collected so far are lost.
\<close>

fun waypoints_loop :: "aligner \<Rightarrow> client \<Rightarrow> vec3 \<Rightarrow> int \<Rightarrow> int list \<Rightarrow> pose list \<Rightarrow> error + pose list" where
  "waypoints_loop av c center num_waypoints [] waypoints = Inr waypoints"
| "waypoints_loop av c center num_waypoints (i # is) waypoints =
     (let angle = 2 * pi * real_of_int i / real_of_int num_waypoints
      in case compute_pose_on_circle av c center angle of
           Inl e \<Rightarrow> Inl e
         | Inr pose \<Rightarrow> waypoints_loop av c center num_waypoints is (waypoints @ [pose]))"

text \<open>
  \<^verbatim>\<open>surround_and_lock\<close> returns the waypoints or raises, and leaves the session attributes
  assigned on the object in both cases. \<open>[1..n - 1]\<close> is \<^verbatim>\<open>range(1, n)\<close>, empty for \<open>n \<le> 1\<close>.
\<close>

definition surround_and_lock :: "aligner \<Rightarrow> client \<Rightarrow> vec3 \<Rightarrow> int \<Rightarrow> (error + pose list) \<times> client" where
  "surround_and_lock av c center num_waypoints =
     (case get_current_pose c (camera_link c) of
        Inl e \<Rightarrow> (Inl e, c)
      | Inr current_pose \<Rightarrow>
          let c1 = c\<lparr>circular_path_initial_position := Some (position current_pose),
                     circular_path_initial_orientation := Some (orientation current_pose)\<rparr>
          in (case compute_initial_angle c1 center of
                Inl e \<Rightarrow> (Inl e, c1)
              | Inr c2 \<Rightarrow>
                  (waypoints_loop av c2 center num_waypoints [1..num_waypoints - 1] [], c2)))"

section \<open>Binary64 arithmetic in the gaze direction\<close>

text \<open>
  Whether two calls of \<^verbatim>\<open>_gaze_at\<close> hand the same array to the library depends on the
  rounding of \<^verbatim>\<open>center_point - ideal_camera_position\<close> and of \<^verbatim>\<open>v / np.linalg.norm(v)\<close>. This
  section models those operations in IEEE 754 double precision. A double is a finite
  number, an infinity or NaN; the sign of zero is not modelled.
\<close>

datatype double = Fin real | PInf | NInf | Nan

text \<open>Rounding to the nearest integer, ties to the even one.\<close>

definition rne :: "real \<Rightarrow> int" where
  "rne x =
     (let f = \<lfloor>x\<rfloor>; d = x - of_int f
      in if d < 1 / 2 then f else if 1 / 2 < d then f + 1 else if even f then f else f + 1)"

text \<open>
  The double nearest to a real: 53 significant bits, gradual underflow (the spacing of
  the doubles never goes below 2 to the power -1074), and an infinity when the rounded
  value reaches 2 to the power 1024.
\<close>

definition f64_round :: "real \<Rightarrow> double" where
  "f64_round x =
     (if x = 0 then Fin 0
      else let e = max (\<lfloor>log 2 \<bar>x\<bar>\<rfloor> - 52) (- 1074);
               r = of_int (rne (x / 2 powr of_int e)) * 2 powr of_int e
           in if 2 ^ 1024 \<le> \<bar>r\<bar> then (if 0 < x then PInf else NInf) else Fin r)"

fun f64_add :: "double \<Rightarrow> double \<Rightarrow> double" where
  "f64_add (Fin a) (Fin b) = f64_round (a + b)"
| "f64_add Nan _ = Nan"
| "f64_add _ Nan = Nan"
| "f64_add PInf NInf = Nan"
| "f64_add NInf PInf = Nan"
| "f64_add PInf _ = PInf"
| "f64_add _ PInf = PInf"
| "f64_add NInf _ = NInf"
| "f64_add _ NInf = NInf"

text \<open>The product of a double with itself, as the dot product of a vector with itself forms it.\<close>

fun f64_sq :: "double \<Rightarrow> double" where
  "f64_sq (Fin a) = f64_round (a * a)"
| "f64_sq Nan = Nan"
| "f64_sq _ = PInf"

fun f64_sqrt :: "double \<Rightarrow> double" where
  "f64_sqrt (Fin a) = (if a < 0 then Nan else f64_round (sqrt a))"
| "f64_sqrt PInf = PInf"
| "f64_sqrt _ = Nan"

fun f64_div :: "double \<Rightarrow> double \<Rightarrow> double" where
  "f64_div (Fin a) (Fin b) =
     (if b = 0 then (if a = 0 then Nan else if 0 < a then PInf else NInf)
      else f64_round (a / b))"
| "f64_div Nan _ = Nan"
| "f64_div _ Nan = Nan"
| "f64_div (Fin a) _ = Fin 0"
| "f64_div PInf (Fin b) = (if 0 \<le> b then PInf else NInf)"
| "f64_div NInf (Fin b) = (if 0 \<le> b then NInf else PInf)"
| "f64_div _ _ = Nan"

type_synonym dvec = "double \<times> double \<times> double"

fun vsub_f64 :: "vec3 \<Rightarrow> vec3 \<Rightarrow> dvec" where
  "vsub_f64 (a, b, c) (x, y, z) = (f64_round (a - x), f64_round (b - y), f64_round (c - z))"

text \<open>
  \<^verbatim>\<open>np.linalg.norm\<close> of a one-dimensional array is the square root of its dot product with
  itself, with no rescaling; the sum is taken here from left to right.
\<close>

fun norm_f64 :: "dvec \<Rightarrow> double" where
  "norm_f64 (x, y, z) = f64_sqrt (f64_add (f64_add (f64_sq x) (f64_sq y)) (f64_sq z))"

text \<open>\<^verbatim>\<open>_normalize\<close> in doubles; an array with a component that is not finite is \<open>NaN\<close>.\<close>

fun normalize_f64 :: "dvec \<Rightarrow> vec3 fl" where
  "normalize_f64 (x, y, z) =
     (let n = norm_f64 (x, y, z)
      in case (f64_div x n, f64_div y n, f64_div z n) of
           (Fin a, Fin b, Fin c) \<Rightarrow> Finite (a, b, c)
         | _ \<Rightarrow> NaN)"

definition gaze_at_f64 :: "aligner \<Rightarrow> vec3 \<Rightarrow> vec3 \<Rightarrow> vec3 \<Rightarrow> error + rot" where
  "gaze_at_f64 av center_point ideal_camera_position initial_y =
     (let direction = normalize_f64 (vsub_f64 center_point ideal_camera_position)
      in av direction ref_forward)"

section \<open>The alignment routine\<close>

text \<open>
  What the library documents for one pair of vectors: the rotation it returns takes \<open>b\<close>
  onto \<open>a\<close>. The contract is asked only where the client uses the routine: a unit
  direction \<open>a\<close> and the reference forward axis.
\<close>

definition aligner_contract :: "aligner \<Rightarrow> bool" where
  "aligner_contract av \<longleftrightarrow>
     (\<forall>a. norm3 a = 1 \<longrightarrow>
        (\<exists>q. av (Finite a) ref_forward = Inr (Finite q) \<and> quat_norm q = 1
             \<and> quat_apply q ref_forward = a))"


text \<open>
  One routine that meets the contract, the shortest-arc rotation between unit vectors:
  the quaternion \<open>(b \<times> a, 1 + b \<cdot> a)\<close>, normalised, and a half turn about an axis
  orthogonal to \<open>b\<close> when \<open>a = -b\<close>. A NaN direction gives a NaN rotation.
\<close>

fun shortest_arc :: "vec3 \<Rightarrow> vec3 \<Rightarrow> quat" where
  "shortest_arc (ax, ay, az) (bx, by, bz) =
     (let s = 1 + (ax * bx + ay * by + az * bz)
      in if s = 0
         then (if bx = 0 \<and> by = 0 then (1, 0, 0, 0)
               else (- by / sqrt (bx\<^sup>2 + by\<^sup>2), bx / sqrt (bx\<^sup>2 + by\<^sup>2), 0, 0))
         else ((by * az - bz * ay) / sqrt (2 * s),
               (bz * ax - bx * az) / sqrt (2 * s),
               (bx * ay - by * ax) / sqrt (2 * s),
               s / sqrt (2 * s)))"

fun align_min :: aligner where
  "align_min NaN b = Inr NaN"
| "align_min (Finite a) b = Inr (Finite (shortest_arc a b))"

section \<open>Frame resolver\<close>

text \<open>
  \<^verbatim>\<open>_tf_callback\<close> runs on the executor's thread. It scans every transform of the message
  (the loop has no \<^verbatim>\<open>break\<close>): each one whose parent is \<^verbatim>\<open>link_eef\<close> overwrites the
  camera link and asks for the subscription to be destroyed.
\<close>

definition tf_callback :: "client \<Rightarrow> tf_message \<Rightarrow> client" where
  "tf_callback c msg =
     foldl (\<lambda>c transform.
              if frame_id transform = ''link_eef''
              then c\<lparr>camera_link := child_frame_id transform,
                     tf_destroyed := tf_destroyed c + 1\<rparr>
              else c) c msg"

definition init_camera_link :: "client \<Rightarrow> client" where
  "init_camera_link c = c\<lparr>tf_subscriptions := tf_subscriptions c + 1\<rparr>"

text \<open>
  The constructor's loop polls \<open>camera_link\<close> while the executor thread delivers messages.
  The schedule of that thread is an input of the model: for the \<open>k\<close>-th pass of the loop,
  the messages whose callbacks run between the test of the \<^verbatim>\<open>while\<close> and the body, and
  those whose callbacks run between the body and the next test.
\<close>

type_synonym executor = "nat \<Rightarrow> tf_message list \<times> tf_message list"

definition deliver :: "client \<Rightarrow> tf_message list \<Rightarrow> client" where
  "deliver c msgs = foldl tf_callback c msgs"

text \<open>Messages none of which holds a transform whose parent is \<^verbatim>\<open>link_eef\<close>.\<close>

definition quiet :: "tf_message list \<Rightarrow> bool" where
  "quiet msgs = list_all (list_all (\<lambda>transform. frame_id transform \<noteq> ''link_eef'')) msgs"

definition warn :: "client \<Rightarrow> string \<Rightarrow> client" where
  "warn c text = c\<lparr>warnings := warnings c @ [text]\<rparr>"

text \<open>
  The loop of lines 101 to 108. Nothing in the code bounds the number of passes once the
  counter has passed 10000 (a callback may store an empty child frame name again), so the
  loop is a partial function: \<open>None\<close> is a constructor that never returns.
\<close>

partial_function (option) camera_link_loop :: "executor \<Rightarrow> nat \<Rightarrow> nat \<Rightarrow> client \<Rightarrow> client option" where
  "camera_link_loop ex k counter c =
     (if camera_link c = ''''
      then (if counter \<le> 10000
            then camera_link_loop ex (k + 1) (counter + 1)
                   (deliver (init_camera_link (deliver c (fst (ex k)))) (snd (ex k)))
            else camera_link_loop ex (k + 1) counter
                   (deliver
                      ((warn (deliver c (fst (ex k)))
                          ''Failed to get the camera link name. Use EEF link instead'')
                         \<lparr>camera_link := ''link_eef''\<rparr>)
                      (snd (ex k))))
      else Some c)"

text \<open>
  The part of \<^verbatim>\<open>__init__\<close> that the modelled methods depend on: the MoveIt2 interface is
  built with \<^verbatim>\<open>base_link_name='link_base'\<close>, the transform buffer is created, the camera
  link starts empty and the discovery loop runs. The session attributes are not assigned.
\<close>

definition init :: "executor \<Rightarrow> (string \<Rightarrow> string \<Rightarrow> error + transform) \<Rightarrow> client option" where
  "init ex tf =
     camera_link_loop ex 0 0
       \<lparr>camera_link = '''', base_link_name = ''link_base'', tf_buffer = tf,
        circular_path_initial_position = None, circular_path_initial_orientation = None,
        circular_path_angle_offset = None, tf_subscriptions = 0, tf_destroyed = 0,
        warnings = []\<rparr>"

section \<open>Example inputs\<close>

text \<open>
  A client whose camera link has been found and whose transform buffer answers every
  lookup with the translation \<open>p\<close> and the identity rotation; an executor that never delivers
  a message; and one that delivers the camera's static transform during the first pass.
\<close>

definition client_at :: "vec3 \<Rightarrow> client" where
  "client_at p =
     \<lparr>camera_link = ''camera_link'', base_link_name = ''link_base'',
      tf_buffer = (\<lambda>target source. Inr \<lparr>tf_translation = p, tf_rotation = (0, 0, 0, 1)\<rparr>),
      circular_path_initial_position = None, circular_path_initial_orientation = None,
      circular_path_angle_offset = None, tf_subscriptions = 1, tf_destroyed = 1,
      warnings = []\<rparr>"

text \<open>The same client when the transform buffer has no answer: every lookup times out.\<close>

definition client_lost :: client where
  "client_lost = (client_at (1, 0, 0))\<lparr>tf_buffer := (\<lambda>target source. Inl TransformError)\<rparr>"

definition quiet_executor :: executor where
  "quiet_executor k = ([], [])"

definition camera_executor :: executor where
  "camera_executor k =
     (if k = 0
      then ([], [ [\<lparr>frame_id = ''link_eef'', child_frame_id = ''camera_link''\<rparr>] ])
      else ([], []))"

section \<open>Vectors and the waypoint loop\<close>

lemma norm3_nonneg: "0 \<le> norm3 v"
  by (cases v) simp

lemma norm3_eq_0_iff: "norm3 (a, b, c) = 0 \<longleftrightarrow> a = 0 \<and> b = 0 \<and> c = 0"
  by (simp add: sum_power2_eq_zero_iff add_nonneg_eq_0_iff)

lemma vsub_eq_zero_iff: "vsub p q = (0, 0, 0) \<longleftrightarrow> p = q"
  by (cases p; cases q) auto

lemma norm3_vsub_eq_0_iff: "norm3 (vsub p q) = 0 \<longleftrightarrow> p = q"
  by (cases p; cases q) (simp add: sum_power2_eq_zero_iff add_nonneg_eq_0_iff)

lemma circle_planar: "(r * cos t)\<^sup>2 + (r * sin t)\<^sup>2 = (r::real)\<^sup>2"
proof -
  have "r\<^sup>2 * ((sin t)\<^sup>2 + (cos t)\<^sup>2) = r\<^sup>2"
    by (simp only: sin_cos_squared_add mult_1_right)
  then show ?thesis
    by (simp only: power_mult_distrib distrib_left add.commute)
qed

lemma waypoints_loop_Inr_iff:
  "waypoints_loop av c center n is acc = Inr ws \<longleftrightarrow>
     (\<exists>ws'. ws = acc @ ws' \<and>
        list_all2 (\<lambda>i p. compute_pose_on_circle av c center
                            (2 * pi * real_of_int i / real_of_int n) = Inr p) is ws')"
proof (induction "is" arbitrary: acc)
  case Nil
  then show ?case by auto
next
  case (Cons i "is")
  show ?case
  proof (cases "compute_pose_on_circle av c center (2 * pi * real_of_int i / real_of_int n)")
    case (Inl e)
    then show ?thesis by (auto simp: list_all2_Cons1)
  next
    case (Inr p)
    then show ?thesis by (auto simp: Cons.IH list_all2_Cons1)
  qed
qed

lemma waypoints_loop_Inl:
  "waypoints_loop av c center n is acc = Inl e \<Longrightarrow>
     \<exists>i \<in> set is. compute_pose_on_circle av c center
                            (2 * pi * real_of_int i / real_of_int n) = Inl e"
proof (induction "is" arbitrary: acc)
  case Nil
  then show ?case by auto
next
  case (Cons i "is")
  then show ?case by (auto split: sum.splits)
qed

lemma surround_and_lock_ok:
  assumes "get_current_pose c (camera_link c) = Inr p0"
    and "position p0 = (px, py, pz)" and "center = (cx, cy, cz)"
  shows "surround_and_lock av c center n =
     (waypoints_loop av
        (c\<lparr>circular_path_initial_position := Some (position p0),
           circular_path_initial_orientation := Some (orientation p0),
           circular_path_angle_offset := Some (atan2 (py - cy) (px - cx))\<rparr>)
        center n [1..n - 1] [],
      c\<lparr>circular_path_initial_position := Some (position p0),
        circular_path_initial_orientation := Some (orientation p0),
        circular_path_angle_offset := Some (atan2 (py - cy) (px - cx))\<rparr>)"
  using assms by (simp add: surround_and_lock_def compute_initial_angle_def Let_def)

lemma compute_pose_on_circle_Inr:
  assumes "compute_pose_on_circle av c center angle = Inr w"
    and "circular_path_angle_offset c = Some off"
    and "circular_path_initial_position c = Some (px, py, pz)"
    and "center = (cx, cy, cz)"
  shows "position w = (cx + norm3 (vsub (px, py, pz) center) * cos (off + angle),
                       cy + norm3 (vsub (px, py, pz) center) * sin (off + angle), pz)"
    and "\<exists>rotation. gaze_at av center (position w) (0, 1, 0) = Inr rotation
           \<and> rot_mul rotation (from_euler_z (roll_correction angle)) = Inr (orientation w)"
  using assms
  by (auto simp: compute_pose_on_circle_def roll_correction_def Let_def split: sum.splits)

lemma compute_pose_on_circle_gaze:
  assumes "circular_path_angle_offset c = Some off"
    and "circular_path_initial_position c = Some (px, py, pz)"
    and "center = (cx, cy, cz)"
  shows "compute_pose_on_circle av c center angle =
     (case gaze_at av center
             (cx + norm3 (vsub (px, py, pz) center) * cos (off + angle),
              cy + norm3 (vsub (px, py, pz) center) * sin (off + angle), pz) (0, 1, 0) of
        Inl e \<Rightarrow> Inl e
      | Inr rotation \<Rightarrow>
          (case rot_mul rotation (from_euler_z (roll_correction angle)) of
             Inl e \<Rightarrow> Inl e
           | Inr product \<Rightarrow>
               Inr \<lparr>position = (cx + norm3 (vsub (px, py, pz) center) * cos (off + angle),
                                cy + norm3 (vsub (px, py, pz) center) * sin (off + angle), pz),
                    orientation = product\<rparr>))"
  using assms
  by (auto simp: compute_pose_on_circle_def roll_correction_def Let_def split: sum.splits)

lemma waypoint_off_center:
  assumes "(px, py, pz) \<noteq> (cx, cy, cz)" and "r = norm3 (vsub (px, py, pz) (cx, cy, cz))"
  shows "(cx + r * cos t, cy + r * sin t, pz) \<noteq> (cx, cy, cz)"
proof
  assume "(cx + r * cos t, cy + r * sin t, pz) = (cx, cy, cz)"
  then have "r * cos t = 0" "r * sin t = 0" by simp_all
  then have "(r * cos t)\<^sup>2 + (r * sin t)\<^sup>2 = 0" by simp
  then have "r\<^sup>2 = 0" by (simp only: circle_planar)
  then have "r = 0" by simp
  then show False using assms by (simp only: norm3_vsub_eq_0_iff)
qed

lemma norm3_vdiv:
  assumes "0 < n"
  shows "norm3 (vdiv v n) = norm3 v / n"
proof (cases v)
  case (fields a b c)
  have "(a / n)\<^sup>2 + (b / n)\<^sup>2 + (c / n)\<^sup>2 = (a\<^sup>2 + b\<^sup>2 + c\<^sup>2) / n\<^sup>2"
    by (simp add: power_divide add_divide_distrib)
  then have "sqrt ((a / n)\<^sup>2 + (b / n)\<^sup>2 + (c / n)\<^sup>2) = sqrt (a\<^sup>2 + b\<^sup>2 + c\<^sup>2) / n"
    using assms by (simp add: real_sqrt_divide)
  then show ?thesis using fields by simp
qed

lemma normalize_v_unit:
  assumes "v \<noteq> (0, 0, 0)"
  shows "normalize_v v = Finite (vdiv v (norm3 v))" and "norm3 (vdiv v (norm3 v)) = 1"
proof -
  have nz: "norm3 v \<noteq> 0"
    using assms by (cases v) (simp only: norm3_eq_0_iff, simp)
  then have pos: "0 < norm3 v"
    using norm3_nonneg [of v] by simp
  show "normalize_v v = Finite (vdiv v (norm3 v))"
    using nz by (simp add: normalize_v_def)
  show "norm3 (vdiv v (norm3 v)) = 1"
    using pos by (simp add: norm3_vdiv)
qed

lemma normalize_v_zero: "normalize_v (0, 0, 0) = NaN"
  by (simp add: normalize_v_def)

lemma quat_apply_roll:
  assumes "s\<^sup>2 + c\<^sup>2 = (1::real)"
  shows "quat_apply (quat_mul q (0, 0, s, c)) (0, 0, 1) = quat_apply q (0, 0, 1)"
proof (cases q)
  case (fields x y z w)
  have 1: "2 * ((x * c + y * s) * (w * s + z * c) + (y * c - x * s) * (w * c - z * s))
             = (s\<^sup>2 + c\<^sup>2) * (2 * (x * z + y * w))"
    by (simp add: power2_eq_square algebra_simps)
  have 2: "2 * ((y * c - x * s) * (w * s + z * c) - (x * c + y * s) * (w * c - z * s))
             = (s\<^sup>2 + c\<^sup>2) * (2 * (y * z - x * w))"
    by (simp add: power2_eq_square algebra_simps)
  have 3: "- (x * c + y * s)\<^sup>2 - (y * c - x * s)\<^sup>2 + (w * s + z * c)\<^sup>2 + (w * c - z * s)\<^sup>2
             = (s\<^sup>2 + c\<^sup>2) * (- x\<^sup>2 - y\<^sup>2 + z\<^sup>2 + w\<^sup>2)"
    by (simp add: power2_eq_square algebra_simps)
  show ?thesis
    unfolding fields using 1 2 3 by (simp add: assms)
qed

lemma shortest_arc_forward:
  assumes "norm3 (ax, ay, az) = 1"
  shows "quat_norm (shortest_arc (ax, ay, az) (0, 0, 1)) = 1
         \<and> quat_apply (shortest_arc (ax, ay, az) (0, 0, 1)) (0, 0, 1) = (ax, ay, az)"
proof -
  have "sqrt (ax\<^sup>2 + ay\<^sup>2 + az\<^sup>2) = 1" using assms by simp
  then have unit: "ax\<^sup>2 + ay\<^sup>2 + az\<^sup>2 = 1" by simp
  have "0 \<le> ax\<^sup>2 + ay\<^sup>2" by simp
  then have "az\<^sup>2 \<le> 1" using unit by linarith
  then have "(- az)\<^sup>2 \<le> 1\<^sup>2" by simp
  then have "- az \<le> 1" by (rule power2_le_imp_le) simp
  then have az: "- 1 \<le> az" by simp
  show ?thesis
  proof (cases "1 + az = 0")
    case True
    then have "az = - 1" by simp
    moreover from this unit have "ax\<^sup>2 + ay\<^sup>2 = 0" by simp
    then have "ax = 0" "ay = 0" by (simp_all add: sum_power2_eq_zero_iff)
    ultimately show ?thesis by simp
  next
    case False
    define s where "s = 1 + az"
    define n where "n = sqrt (2 * s)"
    have spos: "0 < 2 * s" using False az by (simp add: s_def)
    then have n2: "n\<^sup>2 = 2 * s" by (simp add: n_def)
    have xy: "ax\<^sup>2 + ay\<^sup>2 = (2 - s) * s"
      using unit by (simp add: s_def power2_eq_square algebra_simps)
    have sa: "shortest_arc (ax, ay, az) (0, 0, 1) = (- ay / n, ax / n, 0, s / n)"
      using False by (simp add: Let_def n_def s_def)
    have "(- ay / n)\<^sup>2 + (ax / n)\<^sup>2 + 0\<^sup>2 + (s / n)\<^sup>2 = (ax\<^sup>2 + ay\<^sup>2 + s\<^sup>2) / n\<^sup>2"
      by (simp add: power_divide add_divide_distrib)
    also have "ax\<^sup>2 + ay\<^sup>2 + s\<^sup>2 = 2 * s"
    proof -
      have "(2 - s) * s + s\<^sup>2 = 2 * s"
        by (simp add: power2_eq_square algebra_simps)
      then show ?thesis by (simp only: xy)
    qed
    finally have nrm: "(- ay / n)\<^sup>2 + (ax / n)\<^sup>2 + 0\<^sup>2 + (s / n)\<^sup>2 = 1"
      using spos by (simp add: n2)
    have 1: "2 * (ax / n * (s / n)) = ax"
    proof -
      have "2 * (ax / n * (s / n)) = ax * (2 * s) / n\<^sup>2"
        by (simp add: power2_eq_square)
      then show ?thesis using spos by (simp add: n2)
    qed
    have 2: "2 * (ay / n * (s / n)) = ay"
    proof -
      have "2 * (ay / n * (s / n)) = ay * (2 * s) / n\<^sup>2"
        by (simp add: power2_eq_square)
      then show ?thesis using spos by (simp add: n2)
    qed
    have 3: "- (ay / n)\<^sup>2 - (ax / n)\<^sup>2 + (s / n)\<^sup>2 = az"
    proof -
      have "- (ay / n)\<^sup>2 - (ax / n)\<^sup>2 + (s / n)\<^sup>2 = (s\<^sup>2 - (ax\<^sup>2 + ay\<^sup>2)) / n\<^sup>2"
        by (simp add: power_divide diff_divide_distrib add_divide_distrib)
      also have "s\<^sup>2 - (ax\<^sup>2 + ay\<^sup>2) = az * (2 * s)"
      proof -
        have "s\<^sup>2 - (2 - s) * s = az * (2 * s)"
          by (simp add: s_def power2_eq_square algebra_simps)
        then show ?thesis by (simp only: xy)
      qed
      finally show ?thesis using spos by (simp add: n2)
    qed
    have "quat_norm (- ay / n, ax / n, 0, s / n) = 1"
      by (simp only: quat_norm.simps nrm real_sqrt_one)
    moreover have "quat_apply (- ay / n, ax / n, 0, s / n) (0, 0, 1) = (ax, ay, az)"
      using 1 2 3 by simp
    ultimately show ?thesis by (simp only: sa)
  qed
qed

lemma align_min_contract: "aligner_contract align_min"
  unfolding aligner_contract_def ref_forward_def
proof (intro allI impI)
  fix a :: vec3
  assume unit: "norm3 a = 1"
  obtain ax ay az where a: "a = (ax, ay, az)" by (cases a)
  from unit have "norm3 (ax, ay, az) = 1" by (simp only: a)
  note sa = shortest_arc_forward [OF this]
  show "\<exists>q. align_min (Finite a) (0, 0, 1) = Inr (Finite q) \<and> quat_norm q = 1
            \<and> quat_apply q (0, 0, 1) = a"
    unfolding a
    by (intro exI [of _ "shortest_arc (ax, ay, az) (0, 0, 1)"] conjI)
       (simp_all only: align_min.simps sa)
qed

lemma gaze_at_contract:
  assumes "aligner_contract av" and "center \<noteq> p"
  shows "\<exists>q. gaze_at av center p y = Inr (Finite q) \<and> quat_norm q = 1
           \<and> quat_apply q ref_forward = vdiv (vsub center p) (norm3 (vsub center p))"
proof -
  have nz: "vsub center p \<noteq> (0, 0, 0)"
    using assms(2) by (simp only: vsub_eq_zero_iff) simp
  note n = normalize_v_unit [OF nz]
  from assms(1) n(2) show ?thesis
    unfolding aligner_contract_def gaze_at_def Let_def n(1) by blast
qed

lemma compute_pose_on_circle_contract:
  assumes "aligner_contract av"
    and "circular_path_angle_offset c = Some off"
    and "circular_path_initial_position c = Some (px, py, pz)"
    and "center = (cx, cy, cz)" and "(px, py, pz) \<noteq> center"
  shows "\<exists>w. compute_pose_on_circle av c center angle = Inr w"
proof -
  define r where "r = norm3 (vsub (px, py, pz) center)"
  have "(cx + r * cos (off + angle), cy + r * sin (off + angle), pz) \<noteq> (cx, cy, cz)"
    using assms(5) r_def unfolding assms(4) by (rule waypoint_off_center)
  then have "center \<noteq> (cx + r * cos (off + angle), cy + r * sin (off + angle), pz)"
    unfolding assms(4) by (rule not_sym)
  from gaze_at_contract [OF assms(1) this, of "(0, 1, 0)"]
  obtain q where g: "gaze_at av center
      (cx + r * cos (off + angle), cy + r * sin (off + angle), pz) (0, 1, 0) = Inr (Finite q)"
    by blast
  have "\<exists>product. rot_mul (Finite q) (from_euler_z (roll_correction angle)) = Inr product"
    by (simp add: from_euler_z_def)
  then obtain product
    where m: "rot_mul (Finite q) (from_euler_z (roll_correction angle)) = Inr product"
    by blast
  have "compute_pose_on_circle av c center angle =
          Inr \<lparr>position = (cx + r * cos (off + angle), cy + r * sin (off + angle), pz),
               orientation = product\<rparr>"
    unfolding compute_pose_on_circle_gaze [OF assms(2,3,4)] r_def [symmetric] g
    by (simp add: m)
  then show ?thesis by blast
qed

lemma list_all2_total:
  assumes "\<And>i. \<exists>p. P i p"
  shows "\<exists>ps. list_all2 P xs ps"
proof (induction xs)
  case Nil
  then show ?case by simp
next
  case (Cons x xs)
  then obtain ps where "list_all2 P xs ps" by blast
  moreover obtain p where "P x p" using assms by blast
  ultimately have "list_all2 P (x # xs) (p # ps)" by simp
  then show ?case by blast
qed

lemma surround_and_lock_returns:
  assumes "aligner_contract av"
    and "get_current_pose c (camera_link c) = Inr p0" and "position p0 \<noteq> center"
  shows "\<exists>ws c'. surround_and_lock av c center n = (Inr ws, c')"
proof -
  obtain px py pz where p: "position p0 = (px, py, pz)" by (cases "position p0")
  obtain cx cy cz where ce: "center = (cx, cy, cz)" by (cases center)
  define c' where "c' = c\<lparr>circular_path_initial_position := Some (position p0),
           circular_path_initial_orientation := Some (orientation p0),
           circular_path_angle_offset := Some (atan2 (py - cy) (px - cx))\<rparr>"
  have s: "surround_and_lock av c center n = (waypoints_loop av c' center n [1..n - 1] [], c')"
    unfolding c'_def using assms(2) p ce by (rule surround_and_lock_ok)
  have off: "circular_path_angle_offset c' = Some (atan2 (py - cy) (px - cx))"
    and pos: "circular_path_initial_position c' = Some (px, py, pz)"
    by (simp_all add: c'_def p)
  have ne: "(px, py, pz) \<noteq> center" using assms(3) p by simp
  have "\<exists>w. compute_pose_on_circle av c' center angle = Inr w" for angle
    using assms(1) off pos ce ne by (rule compute_pose_on_circle_contract)
  then have "\<exists>ws. list_all2 (\<lambda>i p. compute_pose_on_circle av c' center
                            (2 * pi * real_of_int i / real_of_int n) = Inr p) [1..n - 1] ws"
    by (intro list_all2_total) blast
  then obtain ws where "waypoints_loop av c' center n [1..n - 1] [] = Inr ws"
    unfolding waypoints_loop_Inr_iff by auto
  then show ?thesis using s by simp
qed

section \<open>The orbit: number and order of the waypoints\<close>

lemma surround_and_lock_Inr:
  assumes "surround_and_lock av c center n = (Inr ws, c')"
  shows "\<exists>p0 px py pz cx cy cz.
           get_current_pose c (camera_link c) = Inr p0 \<and> position p0 = (px, py, pz)
         \<and> center = (cx, cy, cz)
         \<and> circular_path_initial_position c' = Some (px, py, pz)
         \<and> circular_path_angle_offset c' = Some (atan2 (py - cy) (px - cx))
         \<and> list_all2 (\<lambda>i p. compute_pose_on_circle av c' center
                            (2 * pi * real_of_int i / real_of_int n) = Inr p) [1..n - 1] ws"
proof (cases "get_current_pose c (camera_link c)")
  case (Inl e)
  then show ?thesis using assms by (simp add: surround_and_lock_def)
next
  case (Inr p0)
  obtain px py pz where p: "position p0 = (px, py, pz)" by (cases "position p0")
  obtain cx cy cz where ce: "center = (cx, cy, cz)" by (cases center)
  define s where "s = c\<lparr>circular_path_initial_position := Some (position p0),
           circular_path_initial_orientation := Some (orientation p0),
           circular_path_angle_offset := Some (atan2 (py - cy) (px - cx))\<rparr>"
  have "surround_and_lock av c center n = (waypoints_loop av s center n [1..n - 1] [], s)"
    unfolding s_def using Inr p ce by (rule surround_and_lock_ok)
  with assms have "(waypoints_loop av s center n [1..n - 1] [], s) = (Inr ws, c')"
    by (simp only:)
  then have c': "c' = s" and l: "waypoints_loop av c' center n [1..n - 1] [] = Inr ws"
    by auto
  from l have "list_all2 (\<lambda>i p. compute_pose_on_circle av c' center
                            (2 * pi * real_of_int i / real_of_int n) = Inr p) [1..n - 1] ws"
    unfolding waypoints_loop_Inr_iff by simp
  moreover have "circular_path_initial_position c' = Some (px, py, pz)"
    "circular_path_angle_offset c' = Some (atan2 (py - cy) (px - cx))"
    by (simp_all add: c' s_def p)
  ultimately show ?thesis using Inr p ce by blast
qed

text \<open>
  Claim C2. For a waypoint count \<open>n \<ge> 2\<close>, every sequence that \<open>surround_and_lock\<close>
  returns has exactly \<open>n - 1\<close> poses, and the pose at position \<open>k\<close> (counted from 0) is
  the pose computed for the index \<open>i = k + 1\<close>, at the angle \<open>2\<pi>i/n\<close>: the indices
  \<open>1, \<dots>, n - 1\<close> in increasing order. The call does return a sequence whenever the
  pose of the camera link is available, the start is not the target and the alignment
  routine meets its contract.
\<close>

theorem surround_and_lock_waypoint_count:
  assumes "2 \<le> n"
  shows "(\<forall>ws c'. surround_and_lock av c center n = (Inr ws, c') \<longrightarrow>
            length ws = nat (n - 1) \<and>
            (\<forall>k < length ws.
               compute_pose_on_circle av c' center
                 (2 * pi * real_of_int (int k + 1) / real_of_int n) = Inr (ws ! k)))
       \<and> (aligner_contract av
          \<and> (\<exists>p0. get_current_pose c (camera_link c) = Inr p0 \<and> position p0 \<noteq> center) \<longrightarrow>
            (\<exists>ws c'. surround_and_lock av c center n = (Inr ws, c')))"
proof (rule conjI)
  show "\<forall>ws c'. surround_and_lock av c center n = (Inr ws, c') \<longrightarrow>
            length ws = nat (n - 1) \<and>
            (\<forall>k < length ws.
               compute_pose_on_circle av c' center
                 (2 * pi * real_of_int (int k + 1) / real_of_int n) = Inr (ws ! k))"
  proof (intro allI impI)
    fix ws c'
    assume "surround_and_lock av c center n = (Inr ws, c')"
    from surround_and_lock_Inr [OF this]
    have l: "list_all2 (\<lambda>i p. compute_pose_on_circle av c' center
                            (2 * pi * real_of_int i / real_of_int n) = Inr p) [1..n - 1] ws"
      by blast
    have len: "length ws = length [1..n - 1]"
      using list_all2_lengthD [OF l] by (rule sym)
    have nth: "compute_pose_on_circle av c' center
                 (2 * pi * real_of_int (int k + 1) / real_of_int n) = Inr (ws ! k)"
      if k: "k < length ws" for k
    proof -
      have "compute_pose_on_circle av c' center
                 (2 * pi * real_of_int ([1..n - 1] ! k) / real_of_int n) = Inr (ws ! k)"
        using k l len by (simp add: list_all2_conv_all_nth)
      moreover have "[1..n - 1] ! k = 1 + int k"
        using k len by (intro nth_upto) simp
      ultimately show ?thesis by (simp add: add.commute)
    qed
    from len nth show "length ws = nat (n - 1) \<and>
            (\<forall>k < length ws.
               compute_pose_on_circle av c' center
                 (2 * pi * real_of_int (int k + 1) / real_of_int n) = Inr (ws ! k))"
      by simp
  qed
  show "aligner_contract av
          \<and> (\<exists>p0. get_current_pose c (camera_link c) = Inr p0 \<and> position p0 \<noteq> center) \<longrightarrow>
            (\<exists>ws c'. surround_and_lock av c center n = (Inr ws, c'))"
    using surround_and_lock_returns by blast
qed

lemma get_current_pose_client_at:
  "get_current_pose (client_at p) frame = Inr \<lparr>position = p, orientation = Finite (0, 0, 0, 1)\<rparr>"
  by (simp add: get_current_pose_def client_at_def)

theorem surround_and_lock_waypoint_count_witness:
  "(2::int) \<le> 4 \<and>
   (\<exists>ws c'. surround_and_lock align_min (client_at (1, 0, 0)) (0, 0, 0) 4 = (Inr ws, c')
      \<and> length ws = 3
      \<and> compute_pose_on_circle align_min c' (0, 0, 0) (2 * pi * 1 / 4) = Inr (ws ! 0))"
proof -
  note t = surround_and_lock_waypoint_count [of 4 align_min "client_at (1, 0, 0)" "(0, 0, 0)"]
  have "\<exists>p0. get_current_pose (client_at (1, 0, 0)) (camera_link (client_at (1, 0, 0))) = Inr p0
          \<and> position p0 \<noteq> (0, 0, 0)"
    by (simp add: get_current_pose_client_at)
  with t align_min_contract
  obtain ws c' where s: "surround_and_lock align_min (client_at (1, 0, 0)) (0, 0, 0) 4 = (Inr ws, c')"
    by auto
  with t have "length ws = 3"
    and "\<forall>k < length ws. compute_pose_on_circle align_min c' (0, 0, 0)
                 (2 * pi * real_of_int (int k + 1) / real_of_int 4) = Inr (ws ! k)"
    by simp_all
  then have "0 < length ws \<longrightarrow> compute_pose_on_circle align_min c' (0, 0, 0)
                 (2 * pi * real_of_int (int 0 + 1) / real_of_int 4) = Inr (ws ! 0)"
    by blast
  with \<open>length ws = 3\<close>
  have "compute_pose_on_circle align_min c' (0, 0, 0) (2 * pi * 1 / 4) = Inr (ws ! 0)"
    by simp
  with s \<open>length ws = 3\<close> show ?thesis by simp
qed

section \<open>Waypoint counts below two\<close>

lemma range_empty: "n < 2 \<Longrightarrow> [1..n - 1] = []"
  by simp

lemma surround_and_lock_small:
  assumes "n < 2"
  shows "fst (surround_and_lock av c center n) =
           (case get_current_pose c (camera_link c) of Inl e \<Rightarrow> Inl e | Inr p \<Rightarrow> Inr [])"
proof (cases "get_current_pose c (camera_link c)")
  case (Inl e)
  then show ?thesis by (simp add: surround_and_lock_def)
next
  case (Inr p0)
  obtain px py pz where p: "position p0 = (px, py, pz)" by (cases "position p0")
  obtain cx cy cz where ce: "center = (cx, cy, cz)" by (cases center)
  show ?thesis
    unfolding surround_and_lock_ok [OF Inr p ce] Inr range_empty [OF assms] by simp
qed

text \<open>
  Claim C9, as the code has it. The first statement of \<open>surround_and_lock\<close> is the lookup
  of the camera link's pose. With \<open>num_waypoints\<close> equal to 0 or 1 and a lookup that
  succeeds, the loop over \<^verbatim>\<open>range(1, num_waypoints)\<close> has no pass: the call returns the
  empty list, raises nothing and has assigned the session attributes. When the lookup
  fails, the call raises the lookup's error and leaves the client as it was.
\<close>

theorem surround_and_lock_zero_or_one:
  assumes "n = 0 \<or> n = 1"
  shows "(\<forall>p0. get_current_pose c (camera_link c) = Inr p0 \<longrightarrow>
            (\<exists>c'. surround_and_lock av c center n = (Inr [], c')
               \<and> circular_path_initial_position c' = Some (position p0)
               \<and> circular_path_initial_orientation c' = Some (orientation p0)))
       \<and> (\<forall>e. get_current_pose c (camera_link c) = Inl e \<longrightarrow>
            surround_and_lock av c center n = (Inl e, c))"
proof (intro conjI allI impI)
  fix p0
  assume g: "get_current_pose c (camera_link c) = Inr p0"
  obtain px py pz where p: "position p0 = (px, py, pz)" by (cases "position p0")
  obtain cx cy cz where ce: "center = (cx, cy, cz)" by (cases center)
  from assms have "[1..n - 1] = []" by auto
  then show "\<exists>c'. surround_and_lock av c center n = (Inr [], c')
               \<and> circular_path_initial_position c' = Some (position p0)
               \<and> circular_path_initial_orientation c' = Some (orientation p0)"
    unfolding surround_and_lock_ok [OF g p ce] by simp
next
  fix e
  assume "get_current_pose c (camera_link c) = Inl e"
  then show "surround_and_lock av c center n = (Inl e, c)"
    by (simp add: surround_and_lock_def)
qed

theorem surround_and_lock_zero_or_one_witness:
  "((1::int) = 0 \<or> (1::int) = 1) \<and>
   get_current_pose (client_at (1, 0, 0)) (camera_link (client_at (1, 0, 0)))
     = Inr \<lparr>position = (1, 0, 0), orientation = Finite (0, 0, 0, 1)\<rparr> \<and>
   fst (surround_and_lock align_min (client_at (1, 0, 0)) (0, 0, 0) 1) = Inr []"
proof -
  have g: "get_current_pose (client_at (1, 0, 0)) (camera_link (client_at (1, 0, 0)))
     = Inr \<lparr>position = (1, 0, 0), orientation = Finite (0, 0, 0, 1)\<rparr>"
    by (rule get_current_pose_client_at)
  have "(1::int) = 0 \<or> (1::int) = 1" by simp
  from surround_and_lock_zero_or_one [OF this, of "client_at (1, 0, 0)" align_min "(0, 0, 0)"] g
  show ?thesis by auto
qed

text \<open>
  Claim C9 as stated fails: with \<open>num_waypoints = 1\<close> on a client whose transform lookup
  times out, the call raises the lookup's error instead of returning the empty list.
\<close>

theorem surround_and_lock_one_lookup_fails:
  "get_current_pose client_lost (camera_link client_lost) = Inl TransformError
   \<and> surround_and_lock align_min client_lost (0, 0, 0) 1 = (Inl TransformError, client_lost)"
  by (simp add: surround_and_lock_def get_current_pose_def client_lost_def)

text \<open>
  Claim C4, as the code has it. \<open>surround_and_lock\<close> does not check the waypoint count.
  For every count below 2, negative counts included, the loop has no pass and the call
  returns the empty list; the only exception that can leave it is the one of the pose
  lookup.
\<close>

theorem surround_and_lock_count_below_two:
  assumes "n < 2"
  shows "fst (surround_and_lock av c center n) =
           (case get_current_pose c (camera_link c) of Inl e \<Rightarrow> Inl e | Inr p \<Rightarrow> Inr [])"
  using assms by (rule surround_and_lock_small)

theorem surround_and_lock_count_below_two_witness:
  "(- 3::int) < 2 \<and> fst (surround_and_lock align_min (client_at (1, 0, 0)) (0, 0, 0) (- 3)) = Inr []"
  using surround_and_lock_count_below_two [of "- 3" align_min "client_at (1, 0, 0)" "(0, 0, 0)"]
  by (simp add: get_current_pose_client_at)

text \<open>
  Claim C4 as stated fails: with a waypoint count of 0 the call returns normally, with
  the empty list, and signals nothing.
\<close>

theorem surround_and_lock_count_zero_returns:
  "fst (surround_and_lock align_min (client_at (1, 0, 0)) (0, 0, 0) 0) = Inr []"
  by (simp add: surround_and_lock_small get_current_pose_client_at)

section \<open>The target at the starting position\<close>





section \<open>The orbit: distance to the target\<close>

lemma waypoint_distance:
  fixes r :: real
  assumes "0 \<le> r"
  shows "sqrt ((cx + r * cos t - cx)\<^sup>2 + (cy + r * sin t - cy)\<^sup>2) = r"
    and "norm3 (vsub (cx + r * cos t, cy + r * sin t, pz) (cx, cy, cz))
           = sqrt (r\<^sup>2 + (pz - cz)\<^sup>2)"
proof -
  have "(cx + r * cos t - cx)\<^sup>2 + (cy + r * sin t - cy)\<^sup>2 = r\<^sup>2"
    using circle_planar [of r t] by simp
  then show "sqrt ((cx + r * cos t - cx)\<^sup>2 + (cy + r * sin t - cy)\<^sup>2) = r"
    using assms by simp
  have "(cx + r * cos t - cx)\<^sup>2 + (cy + r * sin t - cy)\<^sup>2 + (pz - cz)\<^sup>2 = r\<^sup>2 + (pz - cz)\<^sup>2"
    using circle_planar [of r t] by simp
  then show "norm3 (vsub (cx + r * cos t, cy + r * sin t, pz) (cx, cy, cz))
           = sqrt (r\<^sup>2 + (pz - cz)\<^sup>2)"
    by simp
qed

lemma sqrt_plus_square_eq_iff:
  fixes r d :: real
  assumes "0 \<le> r"
  shows "sqrt (r\<^sup>2 + d\<^sup>2) = r \<longleftrightarrow> d = 0"
proof
  assume "sqrt (r\<^sup>2 + d\<^sup>2) = r"
  then have "(sqrt (r\<^sup>2 + d\<^sup>2))\<^sup>2 = r\<^sup>2" by simp
  then have "r\<^sup>2 + d\<^sup>2 = r\<^sup>2" by simp
  then show "d = 0" by simp
next
  assume "d = 0"
  then show "sqrt (r\<^sup>2 + d\<^sup>2) = r" using assms by simp
qed

lemma surround_and_lock_waypoint:
  assumes "surround_and_lock av c center n = (Inr ws, c')" and "w \<in> set ws"
  shows "\<exists>p0 px py pz cx cy cz angle.
           get_current_pose c (camera_link c) = Inr p0 \<and> position p0 = (px, py, pz)
         \<and> center = (cx, cy, cz)
         \<and> circular_path_initial_position c' = Some (px, py, pz)
         \<and> circular_path_angle_offset c' = Some (atan2 (py - cy) (px - cx))
         \<and> compute_pose_on_circle av c' center angle = Inr w"
proof -
  from surround_and_lock_Inr [OF assms(1)]
  obtain p0 px py pz cx cy cz where f: "get_current_pose c (camera_link c) = Inr p0"
      "position p0 = (px, py, pz)" "center = (cx, cy, cz)"
      "circular_path_initial_position c' = Some (px, py, pz)"
      "circular_path_angle_offset c' = Some (atan2 (py - cy) (px - cx))"
    and l: "list_all2 (\<lambda>i p. compute_pose_on_circle av c' center
                            (2 * pi * real_of_int i / real_of_int n) = Inr p) [1..n - 1] ws"
    by blast
  from assms(2) obtain k where "k < length ws" "ws ! k = w"
    by (auto simp: in_set_conv_nth)
  with l have "compute_pose_on_circle av c' center
                 (2 * pi * real_of_int ([1..n - 1] ! k) / real_of_int n) = Inr w"
    by (auto simp: list_all2_conv_all_nth)
  with f show ?thesis by blast
qed

lemma sqrt_25: "sqrt 25 = 5"
  by (rule real_sqrt_unique) simp_all

lemma atan2_0_pos: "0 < x \<Longrightarrow> atan2 0 x = 0"
  by (simp add: atan2_def)

lemma orbit_example:
  "\<exists>w c'. surround_and_lock align_min (client_at (3, 0, 4)) (0, 0, 0) 2 = (Inr [w], c')
          \<and> position w = (- 5, 0, 4)"
proof -
  let ?c = "client_at (3, 0, 4)"
  have g: "get_current_pose ?c (camera_link ?c)
             = Inr \<lparr>position = (3, 0, 4), orientation = Finite (0, 0, 0, 1)\<rparr>"
    by (rule get_current_pose_client_at)
  then obtain ws c' where s: "surround_and_lock align_min ?c (0, 0, 0) 2 = (Inr ws, c')"
    using surround_and_lock_returns [OF align_min_contract g, of "(0, 0, 0)" 2] by auto
  from surround_and_lock_Inr [OF s] g
  have f: "circular_path_initial_position c' = Some (3, 0, 4)"
      "circular_path_angle_offset c' = Some (atan2 (0 - 0) (3 - 0))"
    and l: "list_all2 (\<lambda>i p. compute_pose_on_circle align_min c' (0, 0, 0)
                            (2 * pi * real_of_int i / real_of_int 2) = Inr p) [1..2 - 1] ws"
    by auto
  have "[1..2 - 1] = [1::int]" by (simp add: upto.simps)
  with l obtain w where ws: "ws = [w]"
    and w: "compute_pose_on_circle align_min c' (0, 0, 0) (2 * pi * real_of_int 1 / real_of_int 2) = Inr w"
    by (auto simp: list_all2_Cons1)
  from compute_pose_on_circle_Inr(1) [OF w f(2) f(1) refl]
  have "position w = (- 5, 0, 4)"
    by (simp add: atan2_0_pos sqrt_25)
  with s ws show ?thesis by simp
qed

text \<open>
  Claim C1, as the code has it. The radius of the circle is the 3D distance from the
  starting position to the target, but the circle lies in the horizontal plane of the
  starting position. So every returned waypoint is at the starting height, its horizontal
  distance to the target is the 3D distance \<open>|P0 - center|\<close>, and its 3D distance to the
  target is \<open>sqrt (|P0 - center|\<^sup>2 + (P0.z - center.z)\<^sup>2)\<close>: that is \<open>|P0 - center|\<close> exactly
  when the start is at the height of the target.
\<close>

theorem surround_and_lock_radius:
  assumes "get_current_pose c (camera_link c) = Inr p0"
    and "position p0 = (px, py, pz)" and "center = (cx, cy, cz)"
    and "surround_and_lock av c center n = (Inr ws, c')"
    and "w \<in> set ws" and "position w = (x, y, z)"
  shows "z = pz
       \<and> sqrt ((x - cx)\<^sup>2 + (y - cy)\<^sup>2) = norm3 (vsub (position p0) center)
       \<and> norm3 (vsub (position w) center)
           = sqrt ((norm3 (vsub (position p0) center))\<^sup>2 + (pz - cz)\<^sup>2)
       \<and> (norm3 (vsub (position w) center) = norm3 (vsub (position p0) center) \<longleftrightarrow> pz = cz)"
proof -
  from surround_and_lock_waypoint [OF assms(4,5)] assms(1,2,3)
  obtain angle where s: "circular_path_initial_position c' = Some (px, py, pz)"
      "circular_path_angle_offset c' = Some (atan2 (py - cy) (px - cx))"
    and w: "compute_pose_on_circle av c' center angle = Inr w"
    by auto
  define r where "r = norm3 (vsub (px, py, pz) center)"
  define t where "t = atan2 (py - cy) (px - cx) + angle"
  have r0: "0 \<le> r" unfolding r_def by (rule norm3_nonneg)
  from compute_pose_on_circle_Inr(1) [OF w s(2) s(1) assms(3)]
  have "position w = (cx + r * cos t, cy + r * sin t, pz)"
    by (simp only: r_def t_def)
  with assms(6) have xyz: "x = cx + r * cos t" "y = cy + r * sin t" "z = pz"
    and pw: "position w = (cx + r * cos t, cy + r * sin t, pz)"
    by simp_all
  have d: "norm3 (vsub (position w) center) = sqrt (r\<^sup>2 + (pz - cz)\<^sup>2)"
    unfolding pw assms(3) by (rule waypoint_distance(2) [OF r0])
  have "sqrt ((x - cx)\<^sup>2 + (y - cy)\<^sup>2) = r"
    unfolding xyz by (rule waypoint_distance(1) [OF r0])
  moreover have "sqrt (r\<^sup>2 + (pz - cz)\<^sup>2) = r \<longleftrightarrow> pz = cz"
    using sqrt_plus_square_eq_iff [OF r0, of "pz - cz"] by simp
  ultimately show ?thesis
    using xyz(3) d unfolding assms(2) r_def [symmetric] by simp
qed


theorem surround_and_lock_radius_witness:
  "\<exists>ws c' w x y z.
     get_current_pose (client_at (3, 0, 4)) (camera_link (client_at (3, 0, 4)))
       = Inr \<lparr>position = (3, 0, 4), orientation = Finite (0, 0, 0, 1)\<rparr>
   \<and> surround_and_lock align_min (client_at (3, 0, 4)) (0, 0, 0) 2 = (Inr ws, c')
   \<and> w \<in> set ws \<and> position w = (x, y, z)
   \<and> z = 4 \<and> sqrt ((x - 0)\<^sup>2 + (y - 0)\<^sup>2) = 5
   \<and> norm3 (vsub (position w) (0, 0, 0)) = sqrt (5\<^sup>2 + (4 - 0)\<^sup>2)"
proof -
  let ?c = "client_at (3, 0, 4)"
  let ?p0 = "\<lparr>position = (3, 0, 4), orientation = Finite (0, 0, 0, 1)\<rparr>"
  have g: "get_current_pose ?c (camera_link ?c) = Inr ?p0"
    by (rule get_current_pose_client_at)
  from orbit_example obtain w c'
    where s: "surround_and_lock align_min ?c (0, 0, 0) 2 = (Inr [w], c')"
      and pw: "position w = (- 5, 0, 4)"
    by blast
  have p: "position ?p0 = (3, 0, 4)" by simp
  have n: "norm3 (vsub (position ?p0) (0, 0, 0)) = 5" by (simp add: sqrt_25)
  have "w \<in> set [w]" by simp
  from surround_and_lock_radius [OF g p refl s this pw]
  have "(4::real) = 4 \<and> sqrt ((- 5 - 0)\<^sup>2 + (0 - 0)\<^sup>2) = (5::real)
      \<and> norm3 (vsub (position w) (0, 0, 0)) = sqrt (5\<^sup>2 + (4 - 0)\<^sup>2)"
    unfolding n by blast
  with g s pw show ?thesis by (intro exI [of _ "[w]"] exI [of _ c'] exI [of _ w]) auto
qed

text \<open>
  Claim C1 as stated fails. From the start \<open>(3, 0, 4)\<close>, at 3D distance 5 of the target
  \<open>(0, 0, 0)\<close>, the orbit with two waypoints returns the single waypoint \<open>(-5, 0, 4)\<close>,
  whose 3D distance to the target is \<open>sqrt 41\<close>.
\<close>

theorem surround_and_lock_radius_differs:
  "map_sum id (map position)
     (fst (surround_and_lock align_min (client_at (3, 0, 4)) (0, 0, 0) 2)) = Inr [(- 5, 0, 4)]
   \<and> norm3 (vsub (- 5, 0, 4) (0, 0, 0)) = sqrt 41
   \<and> norm3 (vsub (3, 0, 4) (0, 0, 0)) = 5
   \<and> sqrt 41 \<noteq> (5::real)"
proof -
  from orbit_example obtain w c'
    where s: "surround_and_lock align_min (client_at (3, 0, 4)) (0, 0, 0) 2 = (Inr [w], c')"
      and pw: "position w = (- 5, 0, 4)"
    by blast
  have "sqrt 41 \<noteq> (5::real)"
  proof
    assume "sqrt 41 = (5::real)"
    then have "(sqrt 41)\<^sup>2 = (5::real)\<^sup>2" by simp
    then show False by simp
  qed
  then show ?thesis using s pw by (simp add: sqrt_25)
qed

section \<open>The orbit: gaze direction\<close>

lemma quat_norm_mul_roll:
  assumes "quat_norm q = 1" and "s\<^sup>2 + c\<^sup>2 = (1::real)"
  shows "quat_norm (quat_mul q (0, 0, s, c)) = 1"
proof (cases q)
  case (fields x y z w)
  have "(x * c + y * s)\<^sup>2 + (y * c - x * s)\<^sup>2 + (w * s + z * c)\<^sup>2 + (w * c - z * s)\<^sup>2
          = (s\<^sup>2 + c\<^sup>2) * (x\<^sup>2 + y\<^sup>2 + z\<^sup>2 + w\<^sup>2)"
    by (simp add: power2_eq_square algebra_simps)
  then have "(x * c + y * s)\<^sup>2 + (y * c - x * s)\<^sup>2 + (w * s + z * c)\<^sup>2 + (w * c - z * s)\<^sup>2
          = x\<^sup>2 + y\<^sup>2 + z\<^sup>2 + w\<^sup>2"
    by (simp only: assms(2) mult_1)
  then show ?thesis using assms(1) unfolding fields by simp
qed

text \<open>
  Claim C5. For every waypoint of a returned orbit (start different from the target, an
  alignment routine that meets its contract), the orientation is the gaze rotation
  multiplied on the right by the roll correction about the local z axis, it is a unit
  quaternion, and it takes the reference forward axis \<open>(0, 0, 1)\<close> to the unit vector
  \<open>(center - position) / |center - position|\<close>.
\<close>

theorem surround_and_lock_gaze:
  assumes "aligner_contract av"
    and "get_current_pose c (camera_link c) = Inr p0" and "position p0 \<noteq> center"
    and "surround_and_lock av c center n = (Inr ws, c')" and "w \<in> set ws"
  shows "\<exists>gaze roll q.
           gaze_at av center (position w) (0, 1, 0) = Inr (Finite gaze)
         \<and> from_euler_z roll = Finite (0, 0, sin (roll / 2), cos (roll / 2))
         \<and> q = quat_mul gaze (0, 0, sin (roll / 2), cos (roll / 2))
         \<and> orientation w = Finite q \<and> quat_norm q = 1
         \<and> 0 < norm3 (vsub center (position w))
         \<and> quat_apply q ref_forward
             = vdiv (vsub center (position w)) (norm3 (vsub center (position w)))
         \<and> norm3 (quat_apply q ref_forward) = 1"
proof -
  from surround_and_lock_waypoint [OF assms(4,5)] assms(2)
  obtain px py pz cx cy cz angle where p: "position p0 = (px, py, pz)"
    and ce: "center = (cx, cy, cz)"
    and s: "circular_path_initial_position c' = Some (px, py, pz)"
      "circular_path_angle_offset c' = Some (atan2 (py - cy) (px - cx))"
    and w: "compute_pose_on_circle av c' center angle = Inr w"
    by auto
  note cp = compute_pose_on_circle_Inr [OF w s(2) s(1) ce]
  define roll where "roll = roll_correction angle"
  from cp(2) obtain rotation where g: "gaze_at av center (position w) (0, 1, 0) = Inr rotation"
    and o: "rot_mul rotation (from_euler_z roll) = Inr (orientation w)"
    unfolding roll_def by blast
  have "(px, py, pz) \<noteq> (cx, cy, cz)" using assms(3) p ce by simp
  then have "position w \<noteq> (cx, cy, cz)"
    unfolding cp(1) ce by (rule waypoint_off_center) (rule refl)
  then have ne: "center \<noteq> position w" unfolding ce by (rule not_sym)
  from gaze_at_contract [OF assms(1) ne, of "(0, 1, 0)"] g
  obtain gaze where rot: "rotation = Finite gaze" and unit: "quat_norm gaze = 1"
    and ap: "quat_apply gaze ref_forward
               = vdiv (vsub center (position w)) (norm3 (vsub center (position w)))"
    by auto
  define q where "q = quat_mul gaze (0, 0, sin (roll / 2), cos (roll / 2))"
  have sc: "(sin (roll / 2))\<^sup>2 + (cos (roll / 2))\<^sup>2 = 1" by simp
  have nz: "vsub center (position w) \<noteq> (0, 0, 0)"
    using ne by (simp only: vsub_eq_zero_iff) simp
  have "norm3 (vsub center (position w)) \<noteq> 0"
    using ne by (simp only: norm3_vsub_eq_0_iff) simp
  then have pos: "0 < norm3 (vsub center (position w))"
    using norm3_nonneg [of "vsub center (position w)"] by simp
  have qa: "quat_apply q ref_forward
             = vdiv (vsub center (position w)) (norm3 (vsub center (position w)))"
    unfolding q_def ref_forward_def quat_apply_roll [OF sc] using ap
    by (simp only: ref_forward_def)
  have "orientation w = Finite q"
    using o by (simp add: rot from_euler_z_def q_def)
  moreover have "quat_norm q = 1"
    unfolding q_def using unit sc by (rule quat_norm_mul_roll)
  moreover have "norm3 (quat_apply q ref_forward) = 1"
    unfolding qa by (rule normalize_v_unit(2) [OF nz])
  ultimately show ?thesis
    using g rot q_def pos qa by (auto simp: from_euler_z_def)
qed

theorem surround_and_lock_gaze_witness:
  "\<exists>ws c' w q.
     aligner_contract align_min
   \<and> get_current_pose (client_at (3, 0, 4)) (camera_link (client_at (3, 0, 4)))
       = Inr \<lparr>position = (3, 0, 4), orientation = Finite (0, 0, 0, 1)\<rparr>
   \<and> (3 :: real, 0 :: real, 4 :: real) \<noteq> (0, 0, 0)
   \<and> surround_and_lock align_min (client_at (3, 0, 4)) (0, 0, 0) 2 = (Inr ws, c')
   \<and> w \<in> set ws \<and> orientation w = Finite q
   \<and> quat_apply q ref_forward = vdiv (5, 0, - 4) (sqrt 41)"
proof -
  let ?c = "client_at (3, 0, 4)"
  let ?p0 = "\<lparr>position = (3, 0, 4), orientation = Finite (0, 0, 0, 1)\<rparr>"
  have g: "get_current_pose ?c (camera_link ?c) = Inr ?p0"
    by (rule get_current_pose_client_at)
  from orbit_example obtain w c'
    where s: "surround_and_lock align_min ?c (0, 0, 0) 2 = (Inr [w], c')"
      and pw: "position w = (- 5, 0, 4)"
    by blast
  have ne: "position ?p0 \<noteq> (0, 0, 0)" by simp
  have "w \<in> set [w]" by simp
  from surround_and_lock_gaze [OF align_min_contract g ne s this] pw
  obtain q where "orientation w = Finite q"
    and "quat_apply q ref_forward = vdiv (5, 0, - 4) (sqrt 41)"
    by auto
  with g s align_min_contract show ?thesis
    by (intro exI [of _ "[w]"] exI [of _ c'] exI [of _ w] exI [of _ q]) simp
qed

section \<open>The gaze rotation\<close>

lemma norm3_vscale:
  assumes "0 < k"
  shows "norm3 (vscale k v) = k * norm3 v"
proof (cases v)
  case (fields a b c)
  have "(k * a)\<^sup>2 + (k * b)\<^sup>2 + (k * c)\<^sup>2 = k\<^sup>2 * (a\<^sup>2 + b\<^sup>2 + c\<^sup>2)"
    by (simp add: power_mult_distrib distrib_left)
  then have "sqrt ((k * a)\<^sup>2 + (k * b)\<^sup>2 + (k * c)\<^sup>2) = k * sqrt (a\<^sup>2 + b\<^sup>2 + c\<^sup>2)"
    using assms by (simp add: real_sqrt_mult)
  then show ?thesis using fields by simp
qed

lemma normalize_v_vscale:
  assumes "0 < k"
  shows "normalize_v (vscale k v) = normalize_v v"
proof (cases "norm3 v = 0")
  case True
  then show ?thesis using assms by (simp add: normalize_v_def norm3_vscale)
next
  case False
  obtain a b c where v: "v = (a, b, c)" by (cases v)
  have "vdiv (vscale k v) (k * norm3 v) = vdiv v (norm3 v)"
    using assms by (simp add: v)
  then show ?thesis using assms False by (simp add: normalize_v_def norm3_vscale)
qed

section \<open>Rounding in the gaze direction\<close>

lemma rne_of_int: "rne (of_int m) = m"
  by (simp add: rne_def)

lemma f64_round_0: "f64_round 0 = Fin 0"
  by (simp add: f64_round_def)

lemma f64_round_pow2:
  assumes "- 1022 \<le> k" and "k \<le> 1023"
  shows "f64_round (2 powr of_int k) = Fin (2 powr of_int k)"
proof -
  let ?x = "2 powr (of_int k :: real)"
  have pos: "0 < ?x" by simp
  have l: "\<lfloor>log 2 \<bar>?x\<bar>\<rfloor> = k" by simp
  have e: "max (\<lfloor>log 2 \<bar>?x\<bar>\<rfloor> - 52) (- 1074) = k - 52"
    using assms(1) by (simp add: l)
  have q: "?x / 2 powr of_int (k - 52) = of_int (2 ^ 52)"
  proof -
    have "?x / 2 powr of_int (k - 52) = 2 powr (of_int k - of_int (k - 52))"
      by (simp only: powr_diff)
    also have "of_int k - of_int (k - 52) = (52::real)" by simp
    also have "2 powr (52::real) = 2 ^ 52"
      using powr_realpow [of 2 52] by simp
    finally show ?thesis by simp
  qed
  have r: "of_int (rne (?x / 2 powr of_int (k - 52))) * 2 powr of_int (k - 52) = ?x"
  proof -
    have "of_int (rne (?x / 2 powr of_int (k - 52))) * 2 powr of_int (k - 52)
            = (?x / 2 powr of_int (k - 52)) * 2 powr of_int (k - 52)"
      by (simp only: q rne_of_int)
    then show ?thesis by simp
  qed
  have "(of_int k :: real) < 1024" using assms(2) by simp
  then have "?x < 2 powr 1024" by (rule powr_less_mono) simp
  also have "2 powr (1024::real) = 2 ^ 1024"
    using powr_realpow [of 2 1024] by simp
  finally have lt: "\<not> 2 ^ 1024 \<le> \<bar>?x\<bar>" by simp
  have "?x \<noteq> 0" by simp
  then show ?thesis
    unfolding f64_round_def Let_def e r using lt by (simp only: if_False)
qed

lemma f64_round_1: "f64_round 1 = Fin 1"
  using f64_round_pow2 [of 0] by simp

lemma f64_round_underflow:
  assumes "k \<le> - 1076"
  shows "f64_round (2 powr of_int k) = Fin 0"
proof -
  let ?x = "2 powr (of_int k :: real)"
  have l: "\<lfloor>log 2 \<bar>?x\<bar>\<rfloor> = k" by simp
  have e: "max (\<lfloor>log 2 \<bar>?x\<bar>\<rfloor> - 52) (- 1074) = - 1074"
    using assms by (simp add: l)
  have q: "?x / 2 powr of_int (- 1074) = 2 powr of_int (k + 1074)"
  proof -
    have "?x / 2 powr of_int (- 1074) = 2 powr (of_int k - of_int (- 1074))"
      by (simp only: powr_diff)
    then show ?thesis by simp
  qed
  have "of_int (k + 1074) \<le> (- 2 :: real)" using assms by simp
  then have "2 powr of_int (k + 1074) \<le> 2 powr (- 2 :: real)"
    by (rule powr_mono) simp
  also have "2 powr (- 2 :: real) = 1 / 4"
    by (simp add: powr_minus_divide)
  finally have small: "2 powr of_int (k + 1074) \<le> (1 / 4 :: real)" .
  have fl: "\<lfloor>2 powr (of_int (k + 1074) :: real)\<rfloor> = 0"
    using small by (intro floor_unique) simp_all
  have "rne (2 powr of_int (k + 1074)) = 0"
    unfolding rne_def Let_def fl using small by simp
  then have "rne (?x / 2 powr of_int (- 1074)) = 0"
    by (simp only: q)
  then have r: "of_int (rne (?x / 2 powr of_int (- 1074))) * 2 powr of_int (- 1074) = (0::real)"
    by (simp only: of_int_0 mult_zero_left)
  have "?x \<noteq> 0" by simp
  then show ?thesis
    unfolding f64_round_def Let_def e r by simp
qed

lemma normalize_f64_unit_x: "normalize_f64 (vsub_f64 (1, 0, 0) (0, 0, 0)) = Finite (1, 0, 0)"
  by (simp add: f64_round_0 f64_round_1)

lemma normalize_f64_tiny: "normalize_f64 (vsub_f64 (1 / 2 ^ 600, 0, 0) (0, 0, 0)) = NaN"
proof -
  define t :: real where "t = 2 powr of_int (- 600)"
  have t: "1 / 2 ^ 600 = t"
    using powr_realpow [of 2 600] by (simp add: t_def powr_minus_divide)
  have pos: "0 < t" by (simp add: t_def)
  have r: "f64_round t = Fin t"
    unfolding t_def by (rule f64_round_pow2) simp_all
  have "t * t = 2 powr of_int (- 1200)"
    unfolding t_def by (simp add: powr_add [symmetric])
  moreover have "f64_round (2 powr of_int (- 1200)) = Fin 0"
    by (rule f64_round_underflow) simp
  ultimately have sq: "f64_round (t * t) = Fin 0" by (simp only:)
  have "vsub_f64 (t, 0, 0) (0, 0, 0) = (Fin t, Fin 0, Fin 0)"
    by (simp add: r f64_round_0)
  moreover have "norm_f64 (Fin t, Fin 0, Fin 0) = Fin 0"
    by (simp add: sq f64_round_0)
  moreover have "f64_div (Fin t) (Fin 0) = PInf"
    using pos by simp
  ultimately show ?thesis
    unfolding t by (simp del: norm_f64.simps vsub_f64.simps)
qed

text \<open>
  Claim C8, as the code has it. \<open>_gaze_at\<close> hands the library the array it computes for
  \<^verbatim>\<open>normalize(center_point - ideal_camera_position)\<close> and the reference forward axis, and
  nothing else: \<open>initial_y\<close> is never read, and two calls that compute the same direction
  array return the same result. Difference vectors that are positive multiples of each
  other give the same direction in exact arithmetic; in double precision they need not.
\<close>

theorem gaze_at_direction_only:
  "gaze_at_f64 av c1 p1 y1 = av (normalize_f64 (vsub_f64 c1 p1)) ref_forward
   \<and> (normalize_f64 (vsub_f64 c1 p1) = normalize_f64 (vsub_f64 c2 p2) \<longrightarrow>
        gaze_at_f64 av c1 p1 y1 = gaze_at_f64 av c2 p2 y2)
   \<and> (c2 \<noteq> p2 \<and> 0 < k \<and> vsub c1 p1 = vscale k (vsub c2 p2) \<longrightarrow>
        gaze_at av c1 p1 y1 = gaze_at av c2 p2 y2
        \<and> gaze_at av c2 p2 y2
            = av (Finite (vdiv (vsub c2 p2) (norm3 (vsub c2 p2)))) ref_forward)"
proof (intro conjI impI)
  show "gaze_at_f64 av c1 p1 y1 = av (normalize_f64 (vsub_f64 c1 p1)) ref_forward"
    by (simp add: gaze_at_f64_def)
  show "gaze_at_f64 av c1 p1 y1 = gaze_at_f64 av c2 p2 y2"
    if "normalize_f64 (vsub_f64 c1 p1) = normalize_f64 (vsub_f64 c2 p2)"
    using that by (simp add: gaze_at_f64_def)
next
  assume a: "c2 \<noteq> p2 \<and> 0 < k \<and> vsub c1 p1 = vscale k (vsub c2 p2)"
  then have nz: "vsub c2 p2 \<noteq> (0, 0, 0)"
    by (simp only: vsub_eq_zero_iff) simp
  have n: "normalize_v (vsub c1 p1) = normalize_v (vsub c2 p2)"
    using a normalize_v_vscale [of k "vsub c2 p2"] by simp
  then show "gaze_at av c1 p1 y1 = gaze_at av c2 p2 y2"
    by (simp add: gaze_at_def)
  show "gaze_at av c2 p2 y2 = av (Finite (vdiv (vsub c2 p2) (norm3 (vsub c2 p2)))) ref_forward"
    by (simp add: gaze_at_def normalize_v_unit(1) [OF nz])
qed

theorem gaze_at_direction_only_witness:
  "normalize_f64 (vsub_f64 (3, 1, 1) (2, 1, 1)) = normalize_f64 (vsub_f64 (1, 0, 0) (0, 0, 0))
   \<and> gaze_at_f64 align_min (3, 1, 1) (2, 1, 1) (0, 1, 0)
       = gaze_at_f64 align_min (1, 0, 0) (0, 0, 0) (1, 0, 0)
   \<and> (1 :: real, 0 :: real, 0 :: real) \<noteq> (0, 0, 0) \<and> (0::real) < 2
   \<and> vsub (3, 1, 1) (1, 1, 1) = vscale 2 (vsub (1, 0, 0) (0, 0, 0))
   \<and> gaze_at align_min (3, 1, 1) (1, 1, 1) (0, 1, 0) = gaze_at align_min (1, 0, 0) (0, 0, 0) (1, 0, 0)"
proof -
  have 0: "normalize_f64 (vsub_f64 (3, 1, 1) (2, 1, 1)) = normalize_f64 (vsub_f64 (1, 0, 0) (0, 0, 0))"
    by simp
  have 1: "(1 :: real, 0 :: real, 0 :: real) \<noteq> (0, 0, 0) \<and> (0::real) < 2
            \<and> vsub (3, 1, 1) (1, 1, 1) = vscale 2 (vsub (1, 0, 0) (0, 0, 0))"
    by simp
  from gaze_at_direction_only [of align_min "(3, 1, 1)" "(2, 1, 1)" "(0, 1, 0)"
      "(1, 0, 0)" "(0, 0, 0)" "(1, 0, 0)"] 0
  have a: "gaze_at_f64 align_min (3, 1, 1) (2, 1, 1) (0, 1, 0)
       = gaze_at_f64 align_min (1, 0, 0) (0, 0, 0) (1, 0, 0)"
    by blast
  from gaze_at_direction_only [of align_min "(3, 1, 1)" "(1, 1, 1)" "(0, 1, 0)"
      "(1, 0, 0)" "(0, 0, 0)" "(1, 0, 0)" 2] 1
  have b: "gaze_at align_min (3, 1, 1) (1, 1, 1) (0, 1, 0)
             = gaze_at align_min (1, 0, 0) (0, 0, 0) (1, 0, 0)"
    by blast
  from 0 1 a b show ?thesis by blast
qed

text \<open>
  Claim C8 as stated fails. The difference vector \<open>(1, 0, 0)\<close> is \<open>2 ^ 600\<close> times the
  difference vector \<open>(1 / 2 ^ 600, 0, 0)\<close>, both made of doubles. For the first the direction is
  \<open>(1, 0, 0)\<close> and the library answers a rotation. For the second the square of the
  component underflows to 0, the norm is 0 and the division gives an infinity and two
  NaN: the rotation is NaN.
\<close>

theorem gaze_at_multiple_differs:
  "(1 / 2 ^ 600 :: real, 0 :: real, 0 :: real) \<noteq> (0, 0, 0)
   \<and> (0::real) < 2 ^ 600
   \<and> vsub (1, 0, 0) (0, 0, 0) = vscale (2 ^ 600) (vsub (1 / 2 ^ 600, 0, 0) (0, 0, 0))
   \<and> gaze_at_f64 align_min (1, 0, 0) (0, 0, 0) (0, 1, 0)
       = Inr (Finite (shortest_arc (1, 0, 0) ref_forward))
   \<and> gaze_at_f64 align_min (1 / 2 ^ 600, 0, 0) (0, 0, 0) (0, 1, 0) = Inr NaN"
proof -
  have "gaze_at_f64 align_min (1, 0, 0) (0, 0, 0) (0, 1, 0)
          = Inr (Finite (shortest_arc (1, 0, 0) ref_forward))"
    unfolding gaze_at_f64_def Let_def normalize_f64_unit_x by simp
  moreover have "gaze_at_f64 align_min (1 / 2 ^ 600, 0, 0) (0, 0, 0) (0, 1, 0) = Inr NaN"
    unfolding gaze_at_f64_def Let_def normalize_f64_tiny by simp
  ultimately show ?thesis by simp
qed

section \<open>The roll correction\<close>

lemma quat_apply_neg: "quat_apply (quat_neg q) v = quat_apply q v"
  by (cases q; cases v) simp

lemma same_rotation_apply:
  assumes "same_rotation (Finite p) (Finite q)"
  shows "quat_apply p v = quat_apply q v"
  using assms by (auto simp: quat_apply_neg)

lemma roll_correction_isCont: "isCont roll_correction pi"
proof -
  have l: "continuous (at_left pi) (\<lambda>x. - (pi / 2) * cos x)"
    by (intro continuous_intros)
  have "isCont (\<lambda>x. (pi / 2) * cos x + pi) pi"
    by (intro continuous_intros)
  then have "((\<lambda>x. (pi / 2) * cos x + pi) \<longlongrightarrow> (pi / 2) * cos pi + pi) (at pi)"
    by (simp only: isCont_def)
  then have "((\<lambda>x. (pi / 2) * cos x + pi) \<longlongrightarrow> (pi / 2) * cos pi + pi) (at_right pi)"
    by (rule filterlim_mono) (simp_all add: at_le)
  then have r: "((\<lambda>x. (pi / 2) * cos x + pi) \<longlongrightarrow> - (pi / 2) * cos pi) (at_right pi)"
    by simp
  have "isCont (\<lambda>x. if x \<le> pi then - (pi / 2) * cos x else (pi / 2) * cos x + pi) pi"
    using l r by (rule isCont_If_ge)
  moreover have "roll_correction = (\<lambda>x. if x \<le> pi then - (pi / 2) * cos x else (pi / 2) * cos x + pi)"
    by (rule ext) (simp add: roll_correction_def)
  ultimately show ?thesis by simp
qed

lemma roll_correction_shift:
  assumes "- pi < a" and "a \<le> pi"
  shows "roll_correction (a + 2 * pi) = roll_correction a + pi * (1 + cos a)"
proof -
  have "\<not> a + 2 * pi \<le> pi" using assms(1) by simp
  then have "roll_correction (a + 2 * pi) = (pi / 2) * cos (a + 2 * pi) + pi"
    by (simp only: roll_correction_def if_False)
  also have "\<dots> = (pi / 2) * cos a + pi"
    by (simp only: cos_periodic)
  also have "\<dots> = - (pi / 2) * cos a + pi * (1 + cos a)"
    by (simp add: distrib_left)
  also have "- (pi / 2) * cos a = roll_correction a"
    using assms(2) by (simp only: roll_correction_def if_True)
  finally show ?thesis .
qed

lemma from_euler_z_full_turn:
  "same_rotation (from_euler_z t) (from_euler_z (t + 2 * pi))"
proof -
  have "(t + 2 * pi) / 2 = t / 2 + pi" by simp
  then have "from_euler_z (t + 2 * pi) = Finite (0, 0, - sin (t / 2), - cos (t / 2))"
    by (simp only: from_euler_z_def sin_periodic_pi cos_periodic_pi)
  moreover have "from_euler_z t = Finite (0, 0, sin (t / 2), cos (t / 2))"
    by (simp only: from_euler_z_def)
  ultimately show ?thesis by simp
qed

text \<open>
  Claim C6, as the code has it. The roll correction is continuous at \<open>angle = \<pi>\<close>, where
  both branches give \<open>\<pi>/2\<close>. It is not periodic: for \<open>-\<pi> < angle \<le> \<pi>\<close> the value at
  \<open>angle + 2\<pi>\<close> exceeds the value at \<open>angle\<close> by \<open>\<pi>(1 + cos angle)\<close>. At the ends of the
  orbit, \<open>angle = 0\<close> and \<open>angle = 2\<pi>\<close>, the two values differ by a full turn and are the
  same rotation about the local z axis.
\<close>

theorem roll_correction_continuous:
  "isCont roll_correction pi
   \<and> - (pi / 2) * cos pi = pi / 2 \<and> (pi / 2) * cos pi + pi = pi / 2
   \<and> roll_correction pi = pi / 2
   \<and> (\<forall>a. - pi < a \<and> a \<le> pi \<longrightarrow>
          roll_correction (a + 2 * pi) = roll_correction a + pi * (1 + cos a))
   \<and> same_rotation (from_euler_z (roll_correction 0)) (from_euler_z (roll_correction (0 + 2 * pi)))"
proof -
  have "roll_correction (0 + 2 * pi) = roll_correction 0 + 2 * pi"
    using roll_correction_shift [of 0] by simp
  then have "same_rotation (from_euler_z (roll_correction 0))
               (from_euler_z (roll_correction (0 + 2 * pi)))"
    by (simp only: from_euler_z_full_turn)
  moreover have "roll_correction pi = pi / 2"
    by (simp add: roll_correction_def)
  ultimately show ?thesis
    using roll_correction_isCont roll_correction_shift by simp
qed

theorem roll_correction_continuous_witness:
  "- pi < pi / 2 \<and> pi / 2 \<le> pi
   \<and> roll_correction (pi / 2 + 2 * pi) = roll_correction (pi / 2) + pi * (1 + cos (pi / 2))"
proof -
  have "- pi < pi / 2 \<and> pi / 2 \<le> pi" by simp
  with roll_correction_continuous show ?thesis by blast
qed

text \<open>
  Claim C6 as stated fails in its second half. At \<open>angle = \<pi>/2\<close> the roll is 0, the identity
  rotation; at \<open>angle = \<pi>/2 + 2\<pi>\<close> it is \<open>\<pi>\<close>, the half turn about z, which takes the x axis
  to its opposite.
\<close>

theorem roll_correction_not_periodic:
  "from_euler_z (roll_correction (pi / 2)) = Finite (0, 0, 0, 1)
   \<and> from_euler_z (roll_correction (pi / 2 + 2 * pi)) = Finite (0, 0, 1, 0)
   \<and> \<not> same_rotation (from_euler_z (roll_correction (pi / 2)))
                      (from_euler_z (roll_correction (pi / 2 + 2 * pi)))
   \<and> quat_apply (0, 0, 0, 1) (1, 0, 0) = (1, 0, 0)
   \<and> quat_apply (0, 0, 1, 0) (1, 0, 0) = (- 1, 0, 0)"
proof -
  have 1: "roll_correction (pi / 2) = 0"
    by (simp add: roll_correction_def)
  have "\<not> pi / 2 + 2 * pi \<le> pi" by simp
  then have "roll_correction (pi / 2 + 2 * pi) = (pi / 2) * cos (pi / 2 + 2 * pi) + pi"
    by (simp only: roll_correction_def if_False)
  also have "\<dots> = (pi / 2) * cos (pi / 2) + pi"
    by (simp only: cos_periodic)
  finally have 2: "roll_correction (pi / 2 + 2 * pi) = pi"
    by simp
  show ?thesis
    unfolding 1 2 by (simp add: from_euler_z_def)
qed

section \<open>Frame resolver and constructor\<close>

lemma tf_callback_fields:
  "base_link_name (tf_callback c msg) = base_link_name c"
  "tf_buffer (tf_callback c msg) = tf_buffer c"
  "tf_subscriptions (tf_callback c msg) = tf_subscriptions c"
  "warnings (tf_callback c msg) = warnings c"
  unfolding tf_callback_def by (induction msg arbitrary: c; simp)+

lemma deliver_fields:
  "base_link_name (deliver c msgs) = base_link_name c"
  "tf_buffer (deliver c msgs) = tf_buffer c"
  "tf_subscriptions (deliver c msgs) = tf_subscriptions c"
  "warnings (deliver c msgs) = warnings c"
  unfolding deliver_def by (induction msgs arbitrary: c; simp add: tf_callback_fields)+

lemma tf_callback_quiet:
  "list_all (\<lambda>transform. frame_id transform \<noteq> ''link_eef'') msg \<Longrightarrow> tf_callback c msg = c"
  unfolding tf_callback_def by (induction msg arbitrary: c) simp_all

lemma deliver_quiet: "quiet msgs \<Longrightarrow> deliver c msgs = c"
  unfolding deliver_def quiet_def by (induction msgs arbitrary: c) (simp_all add: tf_callback_quiet)

lemma camera_link_loop_invariant:
  assumes "camera_link_loop ex k counter c = Some c'"
  shows "base_link_name c' = base_link_name c \<and> tf_buffer c' = tf_buffer c
       \<and> camera_link c' \<noteq> []
       \<and> tf_subscriptions c' \<le> tf_subscriptions c + (10001 - counter)"
  using assms
proof (induction rule: camera_link_loop.raw_induct [rotated 1, consumes 1])
  case (1 loop ex k counter c c')
  show ?case
  proof (cases "camera_link c = []")
    case False
    with 1(2) show ?thesis by simp
  next
    case True
    show ?thesis
    proof (cases "counter \<le> 10000")
      case le: True
      with True 1(2) have "loop ex (k + 1) (counter + 1)
                   (deliver (init_camera_link (deliver c (fst (ex k)))) (snd (ex k))) = Some c'"
        by simp
      from 1(1) [OF this] le show ?thesis
        by (auto simp: deliver_fields init_camera_link_def)
    next
      case gt: False
      with True 1(2) have "loop ex (k + 1) counter
                   (deliver
                      ((warn (deliver c (fst (ex k)))
                          ''Failed to get the camera link name. Use EEF link instead'')
                         \<lparr>camera_link := ''link_eef''\<rparr>)
                      (snd (ex k))) = Some c'"
        by simp
      from 1(1) [OF this] gt show ?thesis
        by (simp add: deliver_fields warn_def)
    qed
  qed
qed

lemma camera_link_loop_quiet:
  assumes "camera_link c = []" and "counter + n = 10001"
    and "\<forall>j. k \<le> j \<and> j \<le> k + n \<longrightarrow> quiet (fst (ex j)) \<and> quiet (snd (ex j))"
  shows "camera_link_loop ex k counter c =
           Some ((warn (c\<lparr>tf_subscriptions := tf_subscriptions c + n\<rparr>) ''Failed to get the camera link name. Use EEF link instead'')
                   \<lparr>camera_link := ''link_eef''\<rparr>)"
  using assms
proof (induction n arbitrary: k counter c)
  case 0
  then have q: "quiet (fst (ex k))" "quiet (snd (ex k))" and gt: "\<not> counter \<le> 10000"
    by simp_all
  let ?c = "(warn c ''Failed to get the camera link name. Use EEF link instead'')\<lparr>camera_link := ''link_eef''\<rparr>"
  have "camera_link_loop ex k counter c = camera_link_loop ex (k + 1) counter ?c"
    by (subst camera_link_loop.simps) (simp add: 0(1) gt deliver_quiet q)
  also have "\<dots> = Some ?c"
    by (subst camera_link_loop.simps) simp
  finally show ?case by simp
next
  case (Suc n)
  then have q: "quiet (fst (ex k))" "quiet (snd (ex k))" and le: "counter \<le> 10000"
    by simp_all
  have 1: "camera_link (init_camera_link c) = []"
    using Suc(2) by (simp add: init_camera_link_def)
  have 2: "(counter + 1) + n = 10001" using Suc(3) by simp
  have 3: "\<forall>j. k + 1 \<le> j \<and> j \<le> (k + 1) + n \<longrightarrow> quiet (fst (ex j)) \<and> quiet (snd (ex j))"
    using Suc(4) by simp
  have "camera_link_loop ex k counter c
          = camera_link_loop ex (k + 1) (counter + 1) (init_camera_link c)"
    by (subst camera_link_loop.simps) (simp add: Suc(2) le deliver_quiet q)
  also note Suc(1) [OF 1 2 3]
  finally show ?case by (simp add: init_camera_link_def warn_def)
qed

text \<open>
  Claim C7. The loop asks for a subscription at most 10001 times: every constructor that
  returns has made at most 10001 requests and has a non-empty camera link. When no
  callback that runs during the loop (passes 0 to 10001) delivers a transform whose parent
  is \<^verbatim>\<open>link_eef\<close>, the constructor returns after exactly 10001 requests, with the camera link
  set to \<^verbatim>\<open>link_eef\<close> and the one warning logged.
\<close>

theorem camera_link_discovery:
  "(\<forall>c. init ex tf = Some c \<longrightarrow> camera_link c \<noteq> [] \<and> tf_subscriptions c \<le> 10001)
   \<and> ((\<forall>k \<le> 10001. quiet (fst (ex k)) \<and> quiet (snd (ex k))) \<longrightarrow>
        init ex tf =
          Some \<lparr>camera_link = ''link_eef'', base_link_name = ''link_base'', tf_buffer = tf,
                circular_path_initial_position = None, circular_path_initial_orientation = None,
                circular_path_angle_offset = None, tf_subscriptions = 10001, tf_destroyed = 0,
                warnings = [''Failed to get the camera link name. Use EEF link instead'']\<rparr>)"
proof (intro conjI allI impI)
  fix c
  assume "init ex tf = Some c"
  note l = this [unfolded init_def]
  from camera_link_loop_invariant [OF l]
  show "camera_link c \<noteq> []" and "tf_subscriptions c \<le> 10001"
    by simp_all
next
  assume "\<forall>k \<le> 10001. quiet (fst (ex k)) \<and> quiet (snd (ex k))"
  then have "\<forall>j. 0 \<le> j \<and> j \<le> 0 + 10001 \<longrightarrow> quiet (fst (ex j)) \<and> quiet (snd (ex j))"
    by simp
  then show "init ex tf =
          Some \<lparr>camera_link = ''link_eef'', base_link_name = ''link_base'', tf_buffer = tf,
                circular_path_initial_position = None, circular_path_initial_orientation = None,
                circular_path_angle_offset = None, tf_subscriptions = 10001, tf_destroyed = 0,
                warnings = [''Failed to get the camera link name. Use EEF link instead'']\<rparr>"
    unfolding init_def
    by (subst camera_link_loop_quiet [where n = 10001]) (simp_all add: warn_def)
qed

theorem camera_link_discovery_witness:
  "quiet_executor 0 = ([], []) \<and> quiet_executor 10001 = ([], [])
   \<and> init quiet_executor (tf_buffer (client_at (1, 0, 0))) =
          Some \<lparr>camera_link = ''link_eef'', base_link_name = ''link_base'',
                tf_buffer = tf_buffer (client_at (1, 0, 0)),
                circular_path_initial_position = None, circular_path_initial_orientation = None,
                circular_path_angle_offset = None, tf_subscriptions = 10001, tf_destroyed = 0,
                warnings = [''Failed to get the camera link name. Use EEF link instead'']\<rparr>"
proof -
  have "\<forall>k \<le> 10001. quiet (fst (quiet_executor k)) \<and> quiet (snd (quiet_executor k))"
    by (simp add: quiet_executor_def quiet_def)
  with camera_link_discovery [of quiet_executor "tf_buffer (client_at (1, 0, 0))"]
  show ?thesis by (simp add: quiet_executor_def)
qed

section \<open>The reference frame of the current pose\<close>

lemma init_camera_executor:
  "init camera_executor (\<lambda>target source. Inr \<lparr>tf_translation = p, tf_rotation = (0, 0, 0, 1)\<rparr>)
     = Some (client_at p)"
proof -
  let ?tf = "\<lambda>target source. Inr \<lparr>tf_translation = p, tf_rotation = (0, 0, 0, 1)\<rparr>"
  let ?c0 = "\<lparr>camera_link = [], base_link_name = ''link_base'', tf_buffer = ?tf,
        circular_path_initial_position = None, circular_path_initial_orientation = None,
        circular_path_angle_offset = None, tf_subscriptions = 0, tf_destroyed = 0,
        warnings = []\<rparr>"
  have "camera_link_loop camera_executor 0 0 ?c0
          = camera_link_loop camera_executor (0 + 1) (0 + 1) (client_at p)"
    by (subst camera_link_loop.simps)
       (simp add: camera_executor_def deliver_def tf_callback_def init_camera_link_def
          client_at_def)
  also have "\<dots> = Some (client_at p)"
    by (subst camera_link_loop.simps) (simp add: client_at_def)
  finally show ?thesis by (simp only: init_def)
qed

text \<open>
  Claim C10. On a client built by the constructor, whatever the transform buffer holds
  later, \<open>get_current_pose\<close> looks the transform up with \<^verbatim>\<open>link_base\<close> as target frame and
  its argument as source frame, and returns that translation and rotation as the pose: the
  argument chooses the frame whose pose is returned, the reference frame is always
  \<^verbatim>\<open>link_base\<close>. A failed lookup is raised unchanged.
\<close>

theorem get_current_pose_base_frame:
  assumes "init ex tf = Some c"
  shows "base_link_name c = ''link_base''
       \<and> get_current_pose (c\<lparr>tf_buffer := buf\<rparr>) frame =
           (case buf ''link_base'' frame of
              Inl e \<Rightarrow> Inl e
            | Inr t \<Rightarrow> Inr \<lparr>position = tf_translation t, orientation = Finite (tf_rotation t)\<rparr>)"
proof -
  note l = assms [unfolded init_def]
  from camera_link_loop_invariant [OF l]
  have "base_link_name c = ''link_base''" by simp
  then show ?thesis by (simp add: get_current_pose_def)
qed

theorem get_current_pose_base_frame_witness:
  "init camera_executor (\<lambda>target source. Inr \<lparr>tf_translation = (1, 0, 0), tf_rotation = (0, 0, 0, 1)\<rparr>)
     = Some (client_at (1, 0, 0))
   \<and> get_current_pose
       ((client_at (1, 0, 0))
          \<lparr>tf_buffer := (\<lambda>target source.
              if target = ''link_base'' \<and> source = ''camera_link''
              then Inr \<lparr>tf_translation = (3, 0, 4), tf_rotation = (0, 0, 0, 1)\<rparr>
              else Inl TransformError)\<rparr>)
       ''camera_link''
     = Inr \<lparr>position = (3, 0, 4), orientation = Finite (0, 0, 0, 1)\<rparr>"
  using get_current_pose_base_frame [OF init_camera_executor [of "(1, 0, 0)"],
      of "\<lambda>target source.
              if target = ''link_base'' \<and> source = ''camera_link''
              then Inr \<lparr>tf_translation = (3, 0, 4), tf_rotation = (0, 0, 0, 1)\<rparr>
              else Inl TransformError" "''camera_link''"]
    init_camera_executor [of "(1, 0, 0)"]
  by simp

end
